theory Spec2Isabelle
  imports Main
begin

section \<open>The recording session of the slide client (packages/client/logic/recording.ts)\<close>

text \<open>
  The module keeps a handful of reactive references (the selected camera and microphone,
  the two stream references, the two recorder references, the flags \<open>recording\<close> and
  \<open>showAvatar\<close>) and sequences calls to the browser (file picker, media capture) and to
  the recording engine. The references become the fields of a record, the media streams
  and their tracks live in an explicit store (a track can belong to two streams), every
  asynchronous function becomes a function from the session to a result and the new
  session, and every rejection of the platform is a value of the type \<open>rejection\<close>.
\<close>

subsection \<open>File names\<close>

text \<open>The four getters of a JavaScript \<open>Date\<close> that \<open>getFilename\<close> reads.\<close>

record date =
  getMonth :: nat
  getDate :: nat
  getHours :: nat
  getMinutes :: nat

text \<open>The template literal \<open>`${v}`\<close> of a non-negative integer: its decimal digits.\<close>

definition digit :: "nat \<Rightarrow> char" where
  "digit n = ''0123456789'' ! n"

fun toString :: "nat \<Rightarrow> string" where
  "toString n = (if n < 10 then [digit n] else toString (n div 10) @ [digit (n mod 10)])"

declare toString.simps [simp del]

definition padStart :: "nat \<Rightarrow> char \<Rightarrow> string \<Rightarrow> string" where
  "padStart w c s = replicate (w - length s) c @ s"

definition pad :: "nat \<Rightarrow> string" where
  "pad v = padStart 2 (CHR ''0'') (toString v)"

text \<open>\<open>isTruthy\<close> on a value of type \<open>string | undefined\<close>: neither undefined nor empty.\<close>

fun isTruthy :: "string option \<Rightarrow> bool" where
  "isTruthy None = False"
| "isTruthy (Some v) = (v \<noteq> [])"

text \<open>\<open>Array.prototype.join\<close> on the strings that passed the filter.\<close>

fun join :: "string \<Rightarrow> string list \<Rightarrow> string" where
  "join sep [] = []"
| "join sep [x] = x"
| "join sep (x # y # ys) = x @ sep @ join sep (y # ys)"

definition getFilename :: "string option \<Rightarrow> string \<Rightarrow> date \<Rightarrow> string" where
  "getFilename media recordingName d =
     (let stamp = pad (getMonth d + 1) @ pad (getDate d) @ ''-'' @ pad (getHours d) @ pad (getMinutes d)
      in join ''-'' (map the (filter isTruthy [media, Some recordingName, Some stamp])) @ ''.webm'')"

text \<open>
  The format as the specification words it: the kind, the name and the time stamp
  \<open>MMDD-HHMM\<close> of two-digit zero-padded numbers, joined with a dash, the empty
  components dropped, followed by \<open>.webm\<close>.
\<close>

definition two_digits :: "nat \<Rightarrow> string" where
  "two_digits v = [digit (v div 10), digit (v mod 10)]"

definition spec_stamp :: "date \<Rightarrow> string" where
  "spec_stamp d =
     two_digits (getMonth d + 1) @ two_digits (getDate d) @ ''-'' @
     two_digits (getHours d) @ two_digits (getMinutes d)"

definition spec_filename :: "string \<Rightarrow> string \<Rightarrow> date \<Rightarrow> string" where
  "spec_filename kind name d =
     (if kind = [] \<and> name = [] then spec_stamp d
      else if kind = [] then name @ ''-'' @ spec_stamp d
      else if name = [] then kind @ ''-'' @ spec_stamp d
      else kind @ ''-'' @ name @ ''-'' @ spec_stamp d) @ ''.webm''"

definition valid_date :: "date \<Rightarrow> bool" where
  "valid_date d \<longleftrightarrow>
     getMonth d < 12 \<and> 1 \<le> getDate d \<and> getDate d \<le> 31 \<and> getHours d < 24 \<and> getMinutes d < 60"

subsection \<open>Device tracking\<close>

text \<open>A \<open>MediaDeviceInfo\<close>; the module reads its \<open>deviceId\<close> only.\<close>

record device =
  deviceId :: string

text \<open>\<open>a || b\<close> where \<open>a\<close> is \<open>string | undefined\<close>: \<open>b\<close> when \<open>a\<close> is undefined or empty.\<close>

definition or_else :: "string option \<Rightarrow> string \<Rightarrow> string" where
  "or_else a b = (if isTruthy a then the a else b)"

text \<open>\<open>xs[0]?.deviceId\<close>: undefined on the empty array.\<close>

fun first_deviceId :: "device list \<Rightarrow> string option" where
  "first_deviceId [] = None"
| "first_deviceId (d # ds) = Some (deviceId d)"

subsection \<open>Streams, tracks and recorders\<close>

text \<open>
  A \<open>MediaStreamTrack\<close> has a kind and a ready state (\<open>ended\<close> after \<open>stop()\<close>). Streams
  and tracks are objects: the session holds references (addresses) to them, and the store
  maps an address to the object's content. \<open>startRecording\<close> adds the microphone track
  of the camera stream to the screen stream, so one track can be in two streams.
\<close>

datatype kind = Video | Audio

record track =
  kind :: kind
  ended :: bool

text \<open>The two pairs of references of \<open>useRecording\<close>: camera and slides (screen).\<close>

datatype slot = Camera | Slides

datatype rstate = Recording | Stopped

text \<open>A recorder of the engine: the stream it was built on, its sink, its state.\<close>

record recorder =
  rec_stream :: nat
  rec_file :: string
  rec_state :: rstate

text \<open>The calls that leave the module, in the order they are made.\<close>

datatype event =
    ShowSaveFilePicker string
  | EnsurePermissions
  | ImportRecorder
  | GetUserMedia "string option" "string option"
  | GetDisplayMedia
  | CreateWritable string
  | StartRecorder slot
  | StopRecorder slot

datatype rejection =
    PickerAborted
  | ImportFailed
  | UserMediaDenied
  | DisplayMediaDenied
  | WritableDenied
  | TypeError

text \<open>
  What the browser and the user answer during one operation. The clock is read by
  \<open>new Date()\<close>; it is indexed by the number of calls made so far, so that two file
  names of one operation can carry different minutes. The file picker returns the handle
  of the chosen file or rejects (\<open>None\<close>); the other calls are granted or rejected.
\<close>

record env =
  now :: "nat \<Rightarrow> date"
  showSaveFilePicker :: "string \<Rightarrow> string option"
  importRecordrtc :: bool
  getUserMedia :: "string option \<Rightarrow> string option \<Rightarrow> bool"
  getDisplayMedia :: bool
  createWritable :: "string \<Rightarrow> bool"

record session =
  currentCamera :: string
  currentMic :: string
  recordingName :: string
  recordCamera :: bool
  cameras :: "device list"
  microphones :: "device list"
  recording :: bool
  showAvatar :: bool
  recorderCamera :: "recorder option"
  recorderSlides :: "recorder option"
  streamCamera :: "nat option"
  streamSlides :: "nat option"
  streams :: "nat \<Rightarrow> nat list"
  tracks :: "nat \<Rightarrow> track"
  fresh :: nat
  stopping :: "slot list"
  trace :: "event list"

text \<open>
  \<open>streams\<close> and \<open>tracks\<close> are the store (stream address to the addresses of its tracks,
  track address to the track), \<open>fresh\<close> the next unused address, \<open>stopping\<close> the stop
  callbacks the engine still owes, \<open>trace\<close> the calls made so far.
\<close>

definition emit :: "event \<Rightarrow> session \<Rightarrow> session" where
  "emit ev s = s\<lparr>trace := trace s @ [ev]\<rparr>"

fun streamRef :: "slot \<Rightarrow> session \<Rightarrow> nat option" where
  "streamRef Camera s = streamCamera s"
| "streamRef Slides s = streamSlides s"

fun setStreamRef :: "slot \<Rightarrow> nat option \<Rightarrow> session \<Rightarrow> session" where
  "setStreamRef Camera v s = s\<lparr>streamCamera := v\<rparr>"
| "setStreamRef Slides v s = s\<lparr>streamSlides := v\<rparr>"

definition getTracks :: "nat \<Rightarrow> session \<Rightarrow> nat list" where
  "getTracks sid s = streams s sid"

definition getAudioTracks :: "nat \<Rightarrow> session \<Rightarrow> nat list" where
  "getAudioTracks sid s = filter (\<lambda>t. kind (tracks s t) = Audio) (streams s sid)"

definition stopTrack :: "nat \<Rightarrow> session \<Rightarrow> session" where
  "stopTrack t s = s\<lparr>tracks := (tracks s)(t := (tracks s t)\<lparr>ended := True\<rparr>)\<rparr>"

definition removeTrack :: "nat \<Rightarrow> nat \<Rightarrow> session \<Rightarrow> session" where
  "removeTrack sid t s = s\<lparr>streams := (streams s)(sid := removeAll t (streams s sid))\<rparr>"

definition addTrack :: "nat \<Rightarrow> nat \<Rightarrow> session \<Rightarrow> session" where
  "addTrack sid t s =
     (if t \<in> set (streams s sid) then s
      else s\<lparr>streams := (streams s)(sid := streams s sid @ [t])\<rparr>)"

text \<open>
  \<open>closeStream\<close>: nothing on an unset reference; otherwise every track of the snapshot
  \<open>getTracks()\<close> is stopped and removed from the stream, and the reference is unset.
\<close>

definition closeStream :: "slot \<Rightarrow> session \<Rightarrow> session" where
  "closeStream r s =
     (case streamRef r s of
        None \<Rightarrow> s
      | Some sid \<Rightarrow>
          setStreamRef r None
            (fold (\<lambda>i s'. removeTrack sid i (stopTrack i s')) (getTracks sid s) s))"

text \<open>
  Modelled from the spec: what a granted request to the media capture platform returns
  (the platform is outside the repository). It is a new stream holding one new live track
  for each kind that was asked for (``either track is omitted if its device selection is
  none''), at addresses that were not in use.
\<close>

fun allocTracks :: "kind list \<Rightarrow> nat \<Rightarrow> (nat \<Rightarrow> track) \<Rightarrow> nat list \<times> (nat \<Rightarrow> track)" where
  "allocTracks [] n m = ([], m)"
| "allocTracks (k # ks) n m =
     (let (ids, m') = allocTracks ks (Suc n) (m(n := \<lparr>kind = k, ended = False\<rparr>))
      in (n # ids, m'))"

definition newStream :: "kind list \<Rightarrow> session \<Rightarrow> nat \<times> session" where
  "newStream ks s =
     (let (ids, m) = allocTracks ks (Suc (fresh s)) (tracks s)
      in (fresh s,
          s\<lparr>streams := (streams s)(fresh s := ids), tracks := m,
            fresh := Suc (fresh s) + length ks\<rparr>))"

definition requested :: "string option \<Rightarrow> string option \<Rightarrow> kind list" where
  "requested video audio =
     (if video = None then [] else [Video]) @ (if audio = None then [] else [Audio])"

subsection \<open>The operations of \<open>useRecording\<close>\<close>

text \<open>
  \<open>startCameraStream\<close>. The function \<open>ensureDevicesListPermissions\<close> belongs to the
  device list provider, which is outside the repository: it is taken as a call that
  resolves, and every caller discards its answer. \<open>nextTick\<close> resolves as well and makes
  no call. \<open>getUserMedia\<close> is granted or rejected by the environment.
\<close>

definition startCameraStream :: "env \<Rightarrow> session \<Rightarrow> (rejection + unit) \<times> session" where
  "startCameraStream e s0 =
     (let s = emit EnsurePermissions s0 in
      if streamCamera s = None then
        if currentCamera s = ''none'' \<and> currentMic s = ''none'' then (Inr (), s)
        else
          let video = (if currentCamera s = ''none'' \<or> \<not> recordCamera s then None
                       else Some (currentCamera s));
              audio = (if currentMic s = ''none'' then None else Some (currentMic s));
              s1 = emit (GetUserMedia video audio) s
          in if getUserMedia e video audio then
               (let (sid, s2) = newStream (requested video audio) s1
                in (Inr (), s2\<lparr>streamCamera := Some sid\<rparr>))
             else (Inl UserMediaDenied, s1)
      else (Inr (), s))"

definition toggleAvatar :: "env \<Rightarrow> session \<Rightarrow> (rejection + unit) \<times> session" where
  "toggleAvatar e s =
     (if currentCamera s = ''none'' then (Inr (), s)
      else if showAvatar s then
        (let s1 = s\<lparr>showAvatar := False\<rparr>
         in (Inr (), if \<not> recording s1 then closeStream Camera s1 else s1))
      else
        (case startCameraStream e s of
           (Inl r, s1) \<Rightarrow> (Inl r, s1)
         | (Inr u, s1) \<Rightarrow>
             (Inr (), if streamCamera s1 \<noteq> None
                      then s1\<lparr>showAvatar := (streamCamera s1 \<noteq> None)\<rparr> else s1)))"

text \<open>The callback of \<open>watch(currentCamera, ...)\<close>; \<open>v\<close> is the new value.\<close>

definition watchCurrentCamera :: "env \<Rightarrow> string \<Rightarrow> session \<Rightarrow> (rejection + unit) \<times> session" where
  "watchCurrentCamera e v s =
     (if v = ''none'' then (Inr (), closeStream Camera s)
      else if recording s then (Inr (), s)
      else if streamCamera s \<noteq> None then startCameraStream e (closeStream Camera s)
      else (Inr (), s))"

definition getFileHandle :: "env \<Rightarrow> string \<Rightarrow> session \<Rightarrow> (rejection + string) \<times> session" where
  "getFileHandle e fileName s =
     (case showSaveFilePicker e fileName of
        None \<Rightarrow> (Inl PickerAborted, emit (ShowSaveFilePicker fileName) s)
      | Some h \<Rightarrow> (Inr h, emit (ShowSaveFilePicker fileName) s))"

text \<open>\<open>getFilename(media)\<close> in a session: the name and the clock are read at the call.\<close>

definition filenameNow :: "env \<Rightarrow> string \<Rightarrow> session \<Rightarrow> string" where
  "filenameNow e media s = getFilename (Some media) (recordingName s) (now e (length (trace s)))"

text \<open>
  The block \<open>if (streamCamera.value) { ... }\<close> of \<open>startRecording\<close>: the first audio track
  of the camera stream is added to the screen stream, and the camera recorder is built and
  started when camera recording is on and a camera file handle was obtained. The
  arguments of \<open>new Recorder\<close> are evaluated first, so a rejected \<open>createWritable\<close> leaves
  the recorder reference as it was. \<open>streamSlides.value!\<close> on an unset reference is a
  \<open>TypeError\<close>.
\<close>

definition recordCameraStream :: "env \<Rightarrow> string option \<Rightarrow> session \<Rightarrow> (rejection + unit) \<times> session" where
  "recordCameraStream e cameraFileHandle s =
     (case streamCamera s of
        None \<Rightarrow> (Inr (), s)
      | Some cam \<Rightarrow>
          (case (case getAudioTracks cam s of
                   [] \<Rightarrow> (Inr (), s)
                 | audioTrack # rest \<Rightarrow>
                     (case streamSlides s of
                        None \<Rightarrow> (Inl TypeError, s)
                      | Some sl \<Rightarrow> (Inr (), addTrack sl audioTrack s))) of
             (Inl r, s1) \<Rightarrow> (Inl r, s1)
           | (Inr u, s1) \<Rightarrow>
               if recordCamera s1 \<and> cameraFileHandle \<noteq> None then
                 (let h = the cameraFileHandle; s2 = emit (CreateWritable h) s1 in
                  if createWritable e h then
                    (Inr (),
                     emit (StartRecorder Camera)
                       (s2\<lparr>recorderCamera :=
                             Some \<lparr>rec_stream = cam, rec_file = h, rec_state = Recording\<rparr>\<rparr>))
                  else (Inl WritableDenied, s2))
               else (Inr (), s1)))"

text \<open>
  The end of \<open>startRecording\<close>: the screen recorder, then the flag. The writable stream
  is created while the arguments of \<open>new Recorder\<close> are evaluated; the engine's
  constructor throws on a stream that is undefined.
\<close>

definition recordSlidesStream :: "env \<Rightarrow> string \<Rightarrow> session \<Rightarrow> (rejection + unit) \<times> session" where
  "recordSlidesStream e screenFileHandle s =
     (let s1 = emit (CreateWritable screenFileHandle) s in
      if createWritable e screenFileHandle then
        (case streamSlides s1 of
           None \<Rightarrow> (Inl TypeError, s1)
         | Some sl \<Rightarrow>
             (Inr (),
              (emit (StartRecorder Slides)
                 (s1\<lparr>recorderSlides :=
                       Some \<lparr>rec_stream = sl, rec_file = screenFileHandle, rec_state = Recording\<rparr>\<rparr>))
              \<lparr>recording := True\<rparr>))
      else (Inl WritableDenied, s1))"

text \<open>
  \<open>streamSlides.value = await navigator.mediaDevices.getDisplayMedia(...)\<close>: only
  \<open>video\<close> is asked for, so a granted request returns a new stream with one live video
  track; a rejected one leaves the reference as it was.
\<close>

definition acquireDisplay :: "env \<Rightarrow> session \<Rightarrow> (rejection + unit) \<times> session" where
  "acquireDisplay e s =
     (let s1 = emit GetDisplayMedia s in
      if getDisplayMedia e then
        (let (sid, s2) = newStream [Video] s1 in (Inr (), s2\<lparr>streamSlides := Some sid\<rparr>))
      else (Inl DisplayMediaDenied, s1))"

text \<open>The two file handles at the start of \<open>startRecording\<close>.\<close>

definition cameraHandle :: "env \<Rightarrow> session \<Rightarrow> (rejection + string option) \<times> session" where
  "cameraHandle e s =
     (if recordCamera s then
        (case getFileHandle e (filenameNow e ''camera'' s) s of
           (Inl r, s1) \<Rightarrow> (Inl r, s1)
         | (Inr h, s1) \<Rightarrow> (Inr (Some h), s1))
      else (Inr None, s))"

definition importRecorder :: "env \<Rightarrow> session \<Rightarrow> (rejection + unit) \<times> session" where
  "importRecorder e s =
     (if importRecordrtc e then (Inr (), emit ImportRecorder s)
      else (Inl ImportFailed, emit ImportRecorder s))"

text \<open>
  \<open>startRecording\<close> after the two file handles (from \<open>await ensureDevicesListPermissions()\<close>
  to the end): the permission request, the import of the engine, the camera stream, the
  screen stream, the two recorders, the flag.
\<close>

definition startCapture :: "env \<Rightarrow> string option \<Rightarrow> string \<Rightarrow> session \<Rightarrow> (rejection + unit) \<times> session" where
  "startCapture e cameraFileHandle screenFileHandle s2 =
     (case importRecorder e (emit EnsurePermissions s2) of
        (Inl r, s3) \<Rightarrow> (Inl r, s3)
      | (Inr u, s3) \<Rightarrow>
     (case startCameraStream e s3 of
        (Inl r, s4) \<Rightarrow> (Inl r, s4)
      | (Inr u, s4) \<Rightarrow>
     (case acquireDisplay e s4 of
        (Inl r, s5) \<Rightarrow> (Inl r, s5)
      | (Inr u, s5) \<Rightarrow>
     (case recordCameraStream e cameraFileHandle s5 of
        (Inl r, s6) \<Rightarrow> (Inl r, s6)
      | (Inr u, s6) \<Rightarrow> recordSlidesStream e screenFileHandle s6))))"

definition startRecording :: "env \<Rightarrow> session \<Rightarrow> (rejection + unit) \<times> session" where
  "startRecording e s =
     (case cameraHandle e s of
        (Inl r, s1) \<Rightarrow> (Inl r, s1)
      | (Inr cameraFileHandle, s1) \<Rightarrow>
     (case getFileHandle e (filenameNow e ''screen'' s1) s1 of
        (Inl r, s2) \<Rightarrow> (Inl r, s2)
      | (Inr screenFileHandle, s2) \<Rightarrow> startCapture e cameraFileHandle screenFileHandle s2))"

text \<open>
  \<open>stopRecording\<close> clears the flag and asks each recorder that is set to stop; the engine
  calls the callback later. The callbacks are the two functions below; \<open>engineStopped\<close>
  is the engine confirming one stop that it owes.
\<close>

definition stopRecorder :: "slot \<Rightarrow> session \<Rightarrow> session" where
  "stopRecorder k s =
     (case (case k of Camera \<Rightarrow> recorderCamera s | Slides \<Rightarrow> recorderSlides s) of
        None \<Rightarrow> s
      | Some r \<Rightarrow>
          emit (StopRecorder k)
            ((case k of
                Camera \<Rightarrow> s\<lparr>recorderCamera := Some (r\<lparr>rec_state := Stopped\<rparr>)\<rparr>
              | Slides \<Rightarrow> s\<lparr>recorderSlides := Some (r\<lparr>rec_state := Stopped\<rparr>)\<rparr>)
             \<lparr>stopping := stopping s @ [k]\<rparr>))"

definition stopRecording :: "session \<Rightarrow> session" where
  "stopRecording s = stopRecorder Slides (stopRecorder Camera (s\<lparr>recording := False\<rparr>))"

fun stopCallback :: "slot \<Rightarrow> session \<Rightarrow> session" where
  "stopCallback Camera s =
     (let s1 = s\<lparr>recorderCamera := None\<rparr>
      in if \<not> showAvatar s1 then closeStream Camera s1 else s1)"
| "stopCallback Slides s = (closeStream Slides s)\<lparr>recorderSlides := None\<rparr>"

definition engineStopped :: "slot \<Rightarrow> session \<Rightarrow> session option" where
  "engineStopped k s =
     (if k \<in> set (stopping s) then Some (stopCallback k (s\<lparr>stopping := remove1 k (stopping s)\<rparr>))
      else None)"

subsection \<open>The device list handler and the events of a session\<close>

definition onUpdated :: "session \<Rightarrow> session" where
  "onUpdated s =
     (let s1 = (if currentCamera s \<noteq> ''none'' then
                  (if find (\<lambda>i. deviceId i = currentCamera s) (cameras s) = None
                   then s\<lparr>currentCamera := or_else (first_deviceId (cameras s)) ''default''\<rparr>
                   else s)
                else s)
      in if currentMic s1 \<noteq> ''none'' then
           (if find (\<lambda>i. deviceId i = currentMic s1) (microphones s1) = None
            then s1\<lparr>currentMic := or_else (first_deviceId (microphones s1)) ''default''\<rparr>
            else s1)
         else s1)"

text \<open>
  A ref that is assigned a different value runs its watcher. The selected camera is
  assigned by the user interface and by \<open>onUpdated\<close>.
\<close>

definition setCurrentCamera :: "env \<Rightarrow> string \<Rightarrow> session \<Rightarrow> session" where
  "setCurrentCamera e v s =
     (if v = currentCamera s then s else snd (watchCurrentCamera e v (s\<lparr>currentCamera := v\<rparr>)))"

definition devicesUpdated :: "env \<Rightarrow> device list \<Rightarrow> device list \<Rightarrow> session \<Rightarrow> session" where
  "devicesUpdated e cams mics s =
     (let s1 = onUpdated (s\<lparr>cameras := cams, microphones := mics\<rparr>)
      in if currentCamera s1 = currentCamera s then s1
         else snd (watchCurrentCamera e (currentCamera s1) s1))"

definition initial :: "string \<Rightarrow> string \<Rightarrow> session" where
  "initial cam mic =
     \<lparr>currentCamera = cam, currentMic = mic, recordingName = [], recordCamera = True,
      cameras = [], microphones = [], recording = False, showAvatar = False,
      recorderCamera = None, recorderSlides = None, streamCamera = None, streamSlides = None,
      streams = (\<lambda>a. []), tracks = (\<lambda>a. \<lparr>kind = Video, ended = True\<rparr>), fresh = 0,
      stopping = [], trace = []\<rparr>"

text \<open>
  The states a session can reach when each operation runs to its end (or to its
  rejection) before the next event is handled.
\<close>

inductive reachable :: "session \<Rightarrow> bool" where
  r_initial: "reachable (initial cam mic)"
| r_camera: "reachable s \<Longrightarrow> reachable (setCurrentCamera e v s)"
| r_mic: "reachable s \<Longrightarrow> reachable (s\<lparr>currentMic := v\<rparr>)"
| r_name: "reachable s \<Longrightarrow> reachable (s\<lparr>recordingName := v\<rparr>)"
| r_recordCamera: "reachable s \<Longrightarrow> reachable (s\<lparr>recordCamera := b\<rparr>)"
| r_devices: "reachable s \<Longrightarrow> reachable (devicesUpdated e cams mics s)"
| r_toggle: "reachable s \<Longrightarrow> reachable (snd (toggleAvatar e s))"
| r_start: "reachable s \<Longrightarrow> reachable (snd (startRecording e s))"
| r_stop: "reachable s \<Longrightarrow> reachable (stopRecording s)"
| r_engine: "reachable s \<Longrightarrow> engineStopped k s = Some s' \<Longrightarrow> reachable s'"

subsection \<open>Concrete sessions and answers\<close>

text \<open>One camera is listed and its device id is the empty string; the selected camera is gone.\<close>

definition unlabelled_camera :: session where
  "unlabelled_camera = (initial ''cam1'' ''none'')\<lparr>cameras := [\<lparr>deviceId = []\<rparr>]\<rparr>"

text \<open>The browser and the user grant every request; the clock stands at 5 March, 14:07.\<close>

definition granting :: env where
  "granting =
     \<lparr>now = (\<lambda>n. \<lparr>getMonth = 2, getDate = 5, getHours = 14, getMinutes = 7\<rparr>),
      showSaveFilePicker = (\<lambda>name. Some name), importRecordrtc = True,
      getUserMedia = (\<lambda>video audio. True), getDisplayMedia = True,
      createWritable = (\<lambda>h. True)\<rparr>"

text \<open>The track store after \<open>stop()\<close> on every track of a list.\<close>

definition stopAll :: "nat list \<Rightarrow> (nat \<Rightarrow> track) \<Rightarrow> nat \<Rightarrow> track" where
  "stopAll ts m = (\<lambda>t. if t \<in> set ts then (m t)\<lparr>ended := True\<rparr> else m t)"

text \<open>
  The avatar preview is showing on the camera \<open>cam1\<close>; the same session once the user has
  picked \<open>cam2\<close>; a session with camera recording switched off.
\<close>

definition previewing :: session where
  "previewing = snd (toggleAvatar granting (initial ''cam1'' ''mic1''))"

definition switched :: session where
  "switched = previewing\<lparr>currentCamera := ''cam2''\<rparr>"

definition muted_preview :: session where
  "muted_preview = (initial ''cam1'' ''mic1'')\<lparr>recordCamera := False\<rparr>"

text \<open>
  The prompts for a save-file destination, and the prompts \<open>startRecording\<close> is to make:
  the camera file when camera recording is on, then the screen file (named at the clock
  of the moment it is asked for).
\<close>

fun is_picker :: "event \<Rightarrow> bool" where
  "is_picker (ShowSaveFilePicker name) = True"
| "is_picker ev = False"

definition destinations :: "env \<Rightarrow> session \<Rightarrow> event list" where
  "destinations e s =
     (if recordCamera s
      then [ShowSaveFilePicker (filenameNow e ''camera'' s),
            ShowSaveFilePicker
              (filenameNow e ''screen'' (emit (ShowSaveFilePicker (filenameNow e ''camera'' s)) s))]
      else [ShowSaveFilePicker (filenameNow e ''screen'' s)])"

text \<open>The calls made between two states of a session, and the starts of a recorder.\<close>

definition made :: "session \<Rightarrow> session \<Rightarrow> event list" where
  "made s s' = drop (length (trace s)) (trace s')"

fun is_start :: "event \<Rightarrow> bool" where
  "is_start (StartRecorder k) = True"
| "is_start ev = False"

text \<open>The engine confirms the stops it owes, one after the other, in a given order.\<close>

fun drain :: "slot list \<Rightarrow> session \<Rightarrow> session option" where
  "drain [] s = Some s"
| "drain (k # ks) s = (case engineStopped k s of None \<Rightarrow> None | Some s' \<Rightarrow> drain ks s')"

text \<open>A recording was started from scratch, and from the session showing the preview.\<close>

definition started :: session where
  "started = snd (startRecording granting (initial ''cam1'' ''mic1''))"

definition started_preview :: session where
  "started_preview = snd (startRecording granting previewing)"

text \<open>The invariant of the data model: a recorder reference that is set has its stream set.\<close>

fun recorder_has_stream :: "slot \<Rightarrow> session \<Rightarrow> bool" where
  "recorder_has_stream Camera s = (recorderCamera s = None \<or> streamCamera s \<noteq> None)"
| "recorder_has_stream Slides s = (recorderSlides s = None \<or> streamSlides s \<noteq> None)"

text \<open>
  The recording started from the preview is stopped and the engine has confirmed both
  stops; the user picks the camera \<open>none\<close> during the recording started from scratch.
\<close>

definition stopped_preview :: session where
  "stopped_preview = the (drain [Camera, Slides] (stopRecording started_preview))"

definition camera_off :: session where
  "camera_off = setCurrentCamera granting ''none'' started"

text \<open>
  The user cancels every file prompt; a recording started with camera recording
  switched off.
\<close>

definition cancelling :: env where
  "cancelling = granting\<lparr>showSaveFilePicker := (\<lambda>name. None)\<rparr>"

definition started_muted :: session where
  "started_muted = snd (startRecording granting muted_preview)"

section \<open>Properties\<close>

subsection \<open>File names\<close>

lemma digit_0: "digit 0 = CHR ''0''"
  by (simp add: digit_def)

lemma pad_two_digits: "v < 100 \<Longrightarrow> pad v = two_digits v"
proof (cases "v < 10")
  case True
  then have "toString v = [digit v]" by (simp add: toString.simps)
  with True show ?thesis
    by (simp add: pad_def padStart_def two_digits_def digit_0)
next
  case False
  assume "v < 100"
  with False have small: "v div 10 < 10" by simp
  have "toString v = toString (v div 10) @ [digit (v mod 10)]"
    using False by (subst toString.simps) simp
  also have "toString (v div 10) = [digit (v div 10)]"
    using small by (subst toString.simps) simp
  finally show ?thesis
    by (simp add: pad_def padStart_def two_digits_def)
qed

lemma stamp_valid:
  assumes "valid_date d"
  shows "pad (getMonth d + 1) @ pad (getDate d) @ ''-'' @ pad (getHours d) @ pad (getMinutes d)
         = spec_stamp d"
  using assms by (simp add: valid_date_def spec_stamp_def pad_two_digits)

lemma spec_stamp_nonempty: "spec_stamp d \<noteq> []"
  by (simp add: spec_stamp_def two_digits_def)

text \<open>
  C4. On 2024-03-05 at 14:07 (\<open>getMonth\<close> is 2), \<open>getFilename('camera')\<close> with the
  recording name \<open>Weekly\<close> is \<open>camera-Weekly-0305-1407.webm\<close>. At every date of the
  calendar, \<open>getFilename()\<close> with an empty name is the nine characters \<open>MMDD-HHMM\<close>
  followed by \<open>.webm\<close>, and in general the result is the kind, the name and the
  zero-padded time stamp joined with dashes, the empty ones dropped, followed by \<open>.webm\<close>.
\<close>

theorem getFilename_format:
  assumes "valid_date d"
  shows "getFilename (Some ''camera'') ''Weekly''
           \<lparr>getMonth = 2, getDate = 5, getHours = 14, getMinutes = 7\<rparr>
         = ''camera-Weekly-0305-1407.webm''
       \<and> getFilename None [] d = spec_stamp d @ ''.webm''
       \<and> getFilename (Some media) name d = spec_filename media name d
       \<and> getFilename None name d = spec_filename [] name d
       \<and> length (spec_stamp d) = 9"
proof -
  have ex: "getFilename (Some ''camera'') ''Weekly''
           \<lparr>getMonth = 2, getDate = 5, getHours = 14, getMinutes = 7\<rparr>
         = ''camera-Weekly-0305-1407.webm''"
    by (simp add: getFilename_def pad_def padStart_def toString.simps digit_def)
  have bare: "getFilename None [] d = spec_stamp d @ ''.webm''"
    unfolding getFilename_def stamp_valid [OF assms]
    by (simp add: spec_stamp_nonempty)
  have full: "getFilename (Some media) name d = spec_filename media name d"
    unfolding getFilename_def stamp_valid [OF assms]
    by (simp add: spec_stamp_nonempty spec_filename_def)
  have nokind: "getFilename None name d = spec_filename [] name d"
    unfolding getFilename_def stamp_valid [OF assms]
    by (simp add: spec_stamp_nonempty spec_filename_def)
  have len: "length (spec_stamp d) = 9"
    by (simp add: spec_stamp_def two_digits_def)
  from ex bare full nokind len show ?thesis by blast
qed

theorem getFilename_format_witness:
  "valid_date \<lparr>getMonth = 11, getDate = 25, getHours = 0, getMinutes = 59\<rparr>
   \<and> getFilename None [] \<lparr>getMonth = 11, getDate = 25, getHours = 0, getMinutes = 59\<rparr>
       = ''1225-0059.webm''
   \<and> getFilename (Some ''screen'') ''Weekly''
         \<lparr>getMonth = 11, getDate = 25, getHours = 0, getMinutes = 59\<rparr>
       = ''screen-Weekly-1225-0059.webm''"
proof -
  have v: "valid_date \<lparr>getMonth = 11, getDate = 25, getHours = 0, getMinutes = 59\<rparr>"
    by (simp add: valid_date_def)
  show ?thesis
    using v getFilename_format [OF v, of "''screen''" "''Weekly''"]
    by (simp add: spec_filename_def spec_stamp_def two_digits_def digit_def)
qed

subsection \<open>Device tracking\<close>

lemma find_None_deviceId: "(find (\<lambda>i. deviceId i = x) ds = None) = (x \<notin> deviceId ` set ds)"
  by (auto simp: find_None_iff)

text \<open>
  C1, as the code has it. After a device list update the camera selection is: \<open>none\<close>
  if it was \<open>none\<close>; unchanged if it is in the new camera list; otherwise the device id
  of the first listed camera when that id is not empty, and \<open>default\<close> when the list is
  empty or the first id is the empty string. The microphone selection follows the same
  rule on the microphone list, independently of the camera.
\<close>

theorem onUpdated_selection:
  "currentCamera (onUpdated s) =
     (if currentCamera s = ''none'' then ''none''
      else if currentCamera s \<in> deviceId ` set (cameras s) then currentCamera s
      else (case cameras s of
              [] \<Rightarrow> ''default''
            | d # ds \<Rightarrow> if deviceId d = [] then ''default'' else deviceId d))
   \<and> currentMic (onUpdated s) =
     (if currentMic s = ''none'' then ''none''
      else if currentMic s \<in> deviceId ` set (microphones s) then currentMic s
      else (case microphones s of
              [] \<Rightarrow> ''default''
            | d # ds \<Rightarrow> if deviceId d = [] then ''default'' else deviceId d))"
  by (simp add: onUpdated_def Let_def find_None_deviceId or_else_def split: list.split)

theorem onUpdated_selection_witness:
  "currentCamera (onUpdated unlabelled_camera) = ''default''
   \<and> currentMic (onUpdated unlabelled_camera) = ''none''"
  using onUpdated_selection [of unlabelled_camera]
  by (simp add: unlabelled_camera_def initial_def)

text \<open>
  C1 in the specification's wording (the first listed device id whenever the list is
  not empty) fails where the first listed camera has the empty device id, which is what a
  browser lists before the permission is granted: the selection is absent from a list
  that is not empty, and it becomes \<open>default\<close>, not the first device id.
\<close>

theorem onUpdated_first_id_counterexample:
  "currentCamera unlabelled_camera \<noteq> ''none''
   \<and> currentCamera unlabelled_camera \<notin> deviceId ` set (cameras unlabelled_camera)
   \<and> cameras unlabelled_camera \<noteq> []
   \<and> currentCamera (onUpdated unlabelled_camera) = ''default''
   \<and> currentCamera (onUpdated unlabelled_camera) \<noteq> deviceId (hd (cameras unlabelled_camera))"
  by (simp add: unlabelled_camera_def initial_def onUpdated_def or_else_def)

subsection \<open>Closing a stream\<close>

lemma fold_stop_remove:
  "fold (\<lambda>i s'. removeTrack sid i (stopTrack i s')) ts s =
     s\<lparr>streams := (streams s)(sid := filter (\<lambda>t. t \<notin> set ts) (streams s sid)),
       tracks := stopAll ts (tracks s)\<rparr>"
proof (induction ts arbitrary: s)
  case Nil
  show ?case by (simp add: stopAll_def)
next
  case (Cons i ts)
  have step: "stopAll ts ((tracks s)(i := (tracks s i)\<lparr>ended := True\<rparr>)) = stopAll (i # ts) (tracks s)"
    by (auto simp: stopAll_def fun_eq_iff)
  have flt: "filter (\<lambda>t. t \<notin> set ts) (removeAll i xs) = filter (\<lambda>t. t \<notin> set (i # ts)) xs"
    for xs :: "nat list"
    by (induction xs) auto
  have "fold (\<lambda>i s'. removeTrack sid i (stopTrack i s')) (i # ts) s
        = fold (\<lambda>i s'. removeTrack sid i (stopTrack i s')) ts (removeTrack sid i (stopTrack i s))"
    by simp
  also have "\<dots> = (removeTrack sid i (stopTrack i s))
      \<lparr>streams := (streams (removeTrack sid i (stopTrack i s)))
          (sid := filter (\<lambda>t. t \<notin> set ts) (streams (removeTrack sid i (stopTrack i s)) sid)),
       tracks := stopAll ts (tracks (removeTrack sid i (stopTrack i s)))\<rparr>"
    by (rule Cons.IH)
  also have "\<dots> = s\<lparr>streams := (streams s)(sid := filter (\<lambda>t. t \<notin> set (i # ts)) (streams s sid)),
                     tracks := stopAll (i # ts) (tracks s)\<rparr>"
    by (simp add: removeTrack_def stopTrack_def step flt)
  finally show ?case .
qed

lemma closeStream_eq:
  "closeStream r s =
     (case streamRef r s of
        None \<Rightarrow> s
      | Some sid \<Rightarrow>
          setStreamRef r None
            (s\<lparr>streams := (streams s)(sid := []),
               tracks := stopAll (streams s sid) (tracks s)\<rparr>))"
proof -
  have "filter (\<lambda>t. t \<notin> set xs) xs = []" for xs :: "nat list"
    by (induction xs) auto
  then show ?thesis
    by (simp add: closeStream_def getTracks_def fold_stop_remove split: option.split)
qed

lemma closeStream_Camera_eq:
  "closeStream Camera s =
     (case streamCamera s of
        None \<Rightarrow> s
      | Some sid \<Rightarrow>
          s\<lparr>streamCamera := None, streams := (streams s)(sid := []),
            tracks := stopAll (streams s sid) (tracks s)\<rparr>)"
  by (simp add: closeStream_eq split: option.split)

lemma closeStream_Slides_eq:
  "closeStream Slides s =
     (case streamSlides s of
        None \<Rightarrow> s
      | Some sid \<Rightarrow>
          s\<lparr>streamSlides := None, streams := (streams s)(sid := []),
            tracks := stopAll (streams s sid) (tracks s)\<rparr>)"
  by (simp add: closeStream_eq split: option.split)

lemma stopAll_ended: "t \<in> set ts \<or> ended (m t) \<Longrightarrow> ended (stopAll ts m t)"
  by (auto simp: stopAll_def)

subsection \<open>Acquiring the camera stream\<close>

lemma startCameraStream_existing:
  "streamCamera s \<noteq> None \<Longrightarrow> startCameraStream e s = (Inr (), emit EnsurePermissions s)"
  by (auto simp: startCameraStream_def Let_def emit_def)

lemma startCameraStream_selection:
  "currentCamera (snd (startCameraStream e s)) = currentCamera s
   \<and> currentMic (snd (startCameraStream e s)) = currentMic s"
  by (simp add: startCameraStream_def Let_def emit_def newStream_def case_prod_beta)

lemma startCameraStream_returns:
  "fst (startCameraStream e s) = Inr () \<Longrightarrow>
     streamCamera (snd (startCameraStream e s)) \<noteq> None
     \<or> (currentCamera s = ''none'' \<and> currentMic s = ''none'')"
  by (auto simp: startCameraStream_def Let_def emit_def newStream_def case_prod_beta split: if_splits)



text \<open>
  C7. When a camera stream exists, \<open>startCameraStream\<close> returns with the camera stream
  reference unchanged and makes no call but the permission request. A second call after a
  call that returned does the same: the camera stream reference after two calls is the
  one after the first call, and the second call acquires nothing.
\<close>

theorem startCameraStream_idempotent:
  "(streamCamera s \<noteq> None \<longrightarrow>
       fst (startCameraStream e s) = Inr ()
     \<and> streamCamera (snd (startCameraStream e s)) = streamCamera s
     \<and> snd (startCameraStream e s) = emit EnsurePermissions s)
   \<and> (fst (startCameraStream e s) = Inr () \<longrightarrow>
       fst (startCameraStream e' (snd (startCameraStream e s))) = Inr ()
     \<and> streamCamera (snd (startCameraStream e' (snd (startCameraStream e s))))
         = streamCamera (snd (startCameraStream e s))
     \<and> snd (startCameraStream e' (snd (startCameraStream e s)))
         = emit EnsurePermissions (snd (startCameraStream e s)))"
proof (intro conjI impI)
  assume ex: "streamCamera s \<noteq> None"
  show "fst (startCameraStream e s) = Inr ()"
    and "streamCamera (snd (startCameraStream e s)) = streamCamera s"
    and "snd (startCameraStream e s) = emit EnsurePermissions s"
    by (simp_all add: startCameraStream_existing [OF ex] emit_def)
next
  assume ok: "fst (startCameraStream e s) = Inr ()"
  define s1 where "s1 = snd (startCameraStream e s)"
  have again: "startCameraStream e' s1 = (Inr (), emit EnsurePermissions s1)"
  proof (cases "streamCamera s1 = None")
    case False
    then show ?thesis by (rule startCameraStream_existing)
  next
    case True
    with startCameraStream_returns [OF ok] startCameraStream_selection [of e s]
    have "currentCamera s1 = ''none'' \<and> currentMic s1 = ''none''"
      by (simp add: s1_def)
    then show ?thesis
      by (simp add: startCameraStream_def Let_def emit_def)
  qed
  show "fst (startCameraStream e' (snd (startCameraStream e s))) = Inr ()"
    and "streamCamera (snd (startCameraStream e' (snd (startCameraStream e s))))
         = streamCamera (snd (startCameraStream e s))"
    and "snd (startCameraStream e' (snd (startCameraStream e s)))
         = emit EnsurePermissions (snd (startCameraStream e s))"
    using again by (simp_all add: s1_def emit_def)
qed

lemma closeStream_Camera_released:
  "streamCamera (closeStream Camera s) = None
   \<and> trace (closeStream Camera s) = trace s
   \<and> recording (closeStream Camera s) = recording s
   \<and> showAvatar (closeStream Camera s) = showAvatar s
   \<and> currentCamera (closeStream Camera s) = currentCamera s
   \<and> currentMic (closeStream Camera s) = currentMic s
   \<and> recordCamera (closeStream Camera s) = recordCamera s
   \<and> fresh (closeStream Camera s) = fresh s"
  by (simp add: closeStream_Camera_eq split: option.split)

lemma closeStream_Camera_ended:
  "streamCamera s = Some sid \<Longrightarrow> t \<in> set (getTracks sid s) \<Longrightarrow>
     ended (tracks (closeStream Camera s) t)"
  by (simp add: closeStream_Camera_eq getTracks_def stopAll_def)

lemma closeStream_Camera_emptied:
  "streamCamera s = Some sid \<Longrightarrow> getTracks sid (closeStream Camera s) = []"
  by (simp add: closeStream_Camera_eq getTracks_def)

lemma startCameraStream_acquires:
  assumes "streamCamera s = None"
    and "\<not> (currentCamera s = ''none'' \<and> currentMic s = ''none'')"
  shows "trace (snd (startCameraStream e s)) =
           trace s @ [EnsurePermissions,
             GetUserMedia
               (if currentCamera s = ''none'' \<or> \<not> recordCamera s then None
                else Some (currentCamera s))
               (if currentMic s = ''none'' then None else Some (currentMic s))]"
    and "getUserMedia e
           (if currentCamera s = ''none'' \<or> \<not> recordCamera s then None
            else Some (currentCamera s))
           (if currentMic s = ''none'' then None else Some (currentMic s)) \<Longrightarrow>
         fst (startCameraStream e s) = Inr ()
         \<and> streamCamera (snd (startCameraStream e s)) = Some (fresh s)"
    and "\<not> getUserMedia e
           (if currentCamera s = ''none'' \<or> \<not> recordCamera s then None
            else Some (currentCamera s))
           (if currentMic s = ''none'' then None else Some (currentMic s)) \<Longrightarrow>
         fst (startCameraStream e s) = Inl UserMediaDenied
         \<and> streamCamera (snd (startCameraStream e s)) = None"
  using assms
  by (auto simp: startCameraStream_def Let_def emit_def newStream_def case_prod_beta)

subsection \<open>The concrete sessions\<close>

lemma previewing_first: "toggleAvatar granting (initial ''cam1'' ''mic1'') = (Inr (), previewing)"
  by (simp add: previewing_def toggleAvatar_def startCameraStream_def initial_def granting_def
      emit_def newStream_def requested_def Let_def)

lemma previewing_fields:
  "streamCamera previewing = Some 0" "showAvatar previewing" "\<not> recording previewing"
  "currentCamera previewing = ''cam1''" "currentMic previewing = ''mic1''"
  "recordCamera previewing" "fresh previewing = 3" "getTracks 0 previewing = [1, 2]"
  "trace previewing = [EnsurePermissions, GetUserMedia (Some ''cam1'') (Some ''mic1'')]"
  by (simp_all add: previewing_def toggleAvatar_def startCameraStream_def initial_def
      granting_def emit_def newStream_def requested_def Let_def getTracks_def)

lemma granting_userMedia: "getUserMedia granting video audio"
  by (simp add: granting_def)

lemma switched_fields:
  "streamCamera switched = Some 0" "\<not> recording switched"
  "currentCamera switched = ''cam2''" "currentMic switched = ''mic1''"
  "recordCamera switched" "fresh switched = 3" "getTracks 0 switched = [1, 2]"
  "trace switched = [EnsurePermissions, GetUserMedia (Some ''cam1'') (Some ''mic1'')]"
  using previewing_fields by (simp_all add: switched_def getTracks_def)

subsection \<open>The avatar preview\<close>



text \<open>
  C8. \<open>toggleAvatar\<close> does nothing when the selected camera is \<open>none\<close>. Otherwise, from
  a state that is not recording and has the preview hidden, a first call that returns
  shows the preview on a camera stream, and a second call hides it, unsets the camera
  stream reference, stops every track of that stream and removes them from it, and makes
  no call to the platform.
\<close>

theorem toggleAvatar_twice:
  "(currentCamera s = ''none'' \<longrightarrow> toggleAvatar e s = (Inr (), s))
   \<and> (currentCamera s \<noteq> ''none'' \<and> \<not> recording s \<and> \<not> showAvatar s
        \<and> toggleAvatar e s = (Inr (), s1) \<longrightarrow>
        showAvatar s1 \<and> streamCamera s1 \<noteq> None
      \<and> fst (toggleAvatar e' s1) = Inr ()
      \<and> \<not> showAvatar (snd (toggleAvatar e' s1))
      \<and> streamCamera (snd (toggleAvatar e' s1)) = None
      \<and> trace (snd (toggleAvatar e' s1)) = trace s1
      \<and> (streamCamera s1 = Some sid \<longrightarrow>
            getTracks sid (snd (toggleAvatar e' s1)) = []
          \<and> (\<forall>t \<in> set (getTracks sid s1). ended (tracks (snd (toggleAvatar e' s1)) t))))"
proof (intro conjI impI)
  show "toggleAvatar e s = (Inr (), s)" if "currentCamera s = ''none''"
    using that by (simp add: toggleAvatar_def)
next
  assume h: "currentCamera s \<noteq> ''none'' \<and> \<not> recording s \<and> \<not> showAvatar s
        \<and> toggleAvatar e s = (Inr (), s1)"
  have ok: "fst (startCameraStream e s) = Inr ()"
    using h by (auto simp: toggleAvatar_def split: prod.splits sum.splits)
  have got: "streamCamera (snd (startCameraStream e s)) \<noteq> None"
    using startCameraStream_returns [OF ok] h by simp
  have s1: "s1 = (snd (startCameraStream e s))\<lparr>showAvatar := True\<rparr>"
    using h got by (auto simp: toggleAvatar_def split: prod.splits sum.splits)
  have keep: "currentCamera s1 = currentCamera s \<and> recording s1 = recording s"
    unfolding s1
    by (simp add: startCameraStream_def Let_def emit_def newStream_def case_prod_beta)
  show shown: "showAvatar s1" and set1: "streamCamera s1 \<noteq> None"
    using got by (simp_all add: s1)
  have second: "toggleAvatar e' s1 = (Inr (), closeStream Camera (s1\<lparr>showAvatar := False\<rparr>))"
    using h keep shown by (simp add: toggleAvatar_def)
  show "fst (toggleAvatar e' s1) = Inr ()"
    and "\<not> showAvatar (snd (toggleAvatar e' s1))"
    and "streamCamera (snd (toggleAvatar e' s1)) = None"
    and "trace (snd (toggleAvatar e' s1)) = trace s1"
    by (simp_all add: second closeStream_Camera_released)
  show "getTracks sid (snd (toggleAvatar e' s1)) = []" if "streamCamera s1 = Some sid"
    using that closeStream_Camera_emptied [of "s1\<lparr>showAvatar := False\<rparr>" sid]
    by (simp add: second)
  show "\<forall>t \<in> set (getTracks sid s1). ended (tracks (snd (toggleAvatar e' s1)) t)"
    if "streamCamera s1 = Some sid"
    using that closeStream_Camera_ended [of "s1\<lparr>showAvatar := False\<rparr>" sid]
    by (simp add: second getTracks_def)
qed

theorem toggleAvatar_twice_witness:
  "currentCamera (initial ''cam1'' ''mic1'') \<noteq> ''none''
   \<and> \<not> recording (initial ''cam1'' ''mic1'') \<and> \<not> showAvatar (initial ''cam1'' ''mic1'')
   \<and> toggleAvatar granting (initial ''cam1'' ''mic1'') = (Inr (), previewing)
   \<and> streamCamera previewing = Some 0 \<and> getTracks 0 previewing = [1, 2]
   \<and> \<not> showAvatar (snd (toggleAvatar granting previewing))
   \<and> streamCamera (snd (toggleAvatar granting previewing)) = None
   \<and> ended (tracks (snd (toggleAvatar granting previewing)) 1)
   \<and> ended (tracks (snd (toggleAvatar granting previewing)) 2)
   \<and> toggleAvatar granting (initial ''none'' ''mic1'') = (Inr (), initial ''none'' ''mic1'')"
  using toggleAvatar_twice [of "initial ''cam1'' ''mic1''" granting previewing granting 0]
    toggleAvatar_twice [of "initial ''none'' ''mic1''" granting]
    previewing_first
  by (simp add: previewing_fields) (simp add: initial_def)

subsection \<open>The reaction to a change of the selected camera\<close>

text \<open>
  C3, as the code has it. A change to \<open>none\<close> releases the camera stream whether or not a
  recording is running. A change to another value does nothing while recording, and
  nothing when there is no camera stream. While not recording and with a camera stream,
  the stream is released (reference unset, tracks stopped and removed) and
  \<open>startCameraStream\<close> runs on the result: it asks for the new camera when camera
  recording is on and for no video otherwise, and sets the reference to the new stream
  when the request is granted.
\<close>

theorem watchCurrentCamera_reaction:
  "fst (watchCurrentCamera e ''none'' s) = Inr ()
   \<and> streamCamera (snd (watchCurrentCamera e ''none'' s)) = None
   \<and> trace (snd (watchCurrentCamera e ''none'' s)) = trace s
   \<and> (streamCamera s = Some sid \<and> t \<in> set (getTracks sid s) \<longrightarrow>
        ended (tracks (snd (watchCurrentCamera e ''none'' s)) t))
   \<and> (v \<noteq> ''none'' \<and> recording s \<longrightarrow> watchCurrentCamera e v s = (Inr (), s))
   \<and> (v \<noteq> ''none'' \<and> \<not> recording s \<and> streamCamera s = None \<longrightarrow>
        watchCurrentCamera e v s = (Inr (), s))
   \<and> (v \<noteq> ''none'' \<and> \<not> recording s \<and> streamCamera s = Some sid \<and> currentCamera s = v \<longrightarrow>
        watchCurrentCamera e v s = startCameraStream e (closeStream Camera s)
      \<and> streamCamera (closeStream Camera s) = None
      \<and> getTracks sid (closeStream Camera s) = []
      \<and> (t \<in> set (getTracks sid s) \<longrightarrow> ended (tracks (closeStream Camera s) t))
      \<and> trace (snd (watchCurrentCamera e v s)) =
           trace s @ [EnsurePermissions,
             GetUserMedia (if recordCamera s then Some v else None)
               (if currentMic s = ''none'' then None else Some (currentMic s))]
      \<and> (if getUserMedia e (if recordCamera s then Some v else None)
               (if currentMic s = ''none'' then None else Some (currentMic s))
          then fst (watchCurrentCamera e v s) = Inr ()
             \<and> streamCamera (snd (watchCurrentCamera e v s)) = Some (fresh s)
          else fst (watchCurrentCamera e v s) = Inl UserMediaDenied
             \<and> streamCamera (snd (watchCurrentCamera e v s)) = None))"
proof (intro conjI impI)
  show "fst (watchCurrentCamera e ''none'' s) = Inr ()"
    and "streamCamera (snd (watchCurrentCamera e ''none'' s)) = None"
    and "trace (snd (watchCurrentCamera e ''none'' s)) = trace s"
    by (simp_all add: watchCurrentCamera_def closeStream_Camera_released)
  show "ended (tracks (snd (watchCurrentCamera e ''none'' s)) t)"
    if "streamCamera s = Some sid \<and> t \<in> set (getTracks sid s)"
    using that by (simp add: watchCurrentCamera_def closeStream_Camera_ended)
  show "watchCurrentCamera e v s = (Inr (), s)" if "v \<noteq> ''none'' \<and> recording s"
    using that by (simp add: watchCurrentCamera_def)
  show "watchCurrentCamera e v s = (Inr (), s)"
    if "v \<noteq> ''none'' \<and> \<not> recording s \<and> streamCamera s = None"
    using that by (simp add: watchCurrentCamera_def)
next
  assume h: "v \<noteq> ''none'' \<and> \<not> recording s \<and> streamCamera s = Some sid \<and> currentCamera s = v"
  let ?c = "closeStream Camera s"
  show eq: "watchCurrentCamera e v s = startCameraStream e ?c"
    using h by (simp add: watchCurrentCamera_def)
  show "streamCamera ?c = None"
    by (simp add: closeStream_Camera_released)
  show "getTracks sid ?c = []"
    using h by (simp add: closeStream_Camera_emptied)
  show "ended (tracks ?c t)" if "t \<in> set (getTracks sid s)"
    using h that by (simp add: closeStream_Camera_ended)
  have none: "streamCamera ?c = None"
    and sel: "\<not> (currentCamera ?c = ''none'' \<and> currentMic ?c = ''none'')"
    using h by (simp_all add: closeStream_Camera_released)
  show "trace (snd (watchCurrentCamera e v s)) =
           trace s @ [EnsurePermissions,
             GetUserMedia (if recordCamera s then Some v else None)
               (if currentMic s = ''none'' then None else Some (currentMic s))]"
    using startCameraStream_acquires(1) [OF none sel, of e] h
    by (simp add: eq closeStream_Camera_released)
  show "if getUserMedia e (if recordCamera s then Some v else None)
               (if currentMic s = ''none'' then None else Some (currentMic s))
          then fst (watchCurrentCamera e v s) = Inr ()
             \<and> streamCamera (snd (watchCurrentCamera e v s)) = Some (fresh s)
          else fst (watchCurrentCamera e v s) = Inl UserMediaDenied
             \<and> streamCamera (snd (watchCurrentCamera e v s)) = None"
    using startCameraStream_acquires(2,3) [OF none sel, of e] h
    by (simp add: eq closeStream_Camera_released)
qed

text \<open>
  C3 in the specification's wording (released and reacquired on every change while not
  recording) fails where no camera stream exists: the selection changes to \<open>cam2\<close>
  while not recording, every request would be granted, and nothing is acquired and no
  call is made.
\<close>

theorem watchCurrentCamera_no_stream_counterexample:
  "\<not> recording (initial ''cam2'' ''mic1'')
   \<and> currentCamera (initial ''cam2'' ''mic1'') = ''cam2''
   \<and> getUserMedia granting (Some ''cam2'') (Some ''mic1'')
   \<and> fst (watchCurrentCamera granting ''cam2'' (initial ''cam2'' ''mic1'')) = Inr ()
   \<and> streamCamera (snd (watchCurrentCamera granting ''cam2'' (initial ''cam2'' ''mic1''))) = None
   \<and> trace (snd (watchCurrentCamera granting ''cam2'' (initial ''cam2'' ''mic1''))) = []"
  by (simp add: watchCurrentCamera_def initial_def granting_def)

subsection \<open>Starting a recording\<close>

lemma made_append: "trace s' = trace s @ evs \<Longrightarrow> made s s' = evs"
  by (simp add: made_def)

lemma made_trans:
  assumes "trace s' = trace s @ made s s'" and "trace s'' = trace s' @ made s' s''"
  shows "trace s'' = trace s @ made s s''" and "made s s'' = made s s' @ made s' s''"
proof -
  have "trace s'' = trace s @ (made s s' @ made s' s'')"
    using assms by simp
  then show "made s s'' = made s s' @ made s' s''"
    by (rule made_append)
  with assms show "trace s'' = trace s @ made s s''"
    by simp
qed

lemma importRecorder_made:
  assumes "importRecorder e (emit EnsurePermissions s) = (r, s')"
  shows "trace s' = trace s @ made s s'"
    and "made s s' = [EnsurePermissions, ImportRecorder]"
    and "s' = emit ImportRecorder (emit EnsurePermissions s)"
  using assms by (auto simp: importRecorder_def emit_def made_def split: if_splits)

lemma startCameraStream_made:
  assumes "startCameraStream e s = (r, s')"
  shows "trace s' = trace s @ made s s'"
    and "\<not> list_ex is_picker (made s s')"
    and "filter is_start (made s s') = []"
    and "made s s' \<noteq> []"
  using assms
  by (auto simp: startCameraStream_def Let_def emit_def newStream_def case_prod_beta made_def
      split: if_splits)

lemma startCameraStream_frame:
  assumes "startCameraStream e s = (r, s')"
  shows "recording s' = recording s" and "showAvatar s' = showAvatar s"
    and "recordCamera s' = recordCamera s" and "recorderCamera s' = recorderCamera s"
    and "recorderSlides s' = recorderSlides s" and "streamSlides s' = streamSlides s"
    and "stopping s' = stopping s" and "currentCamera s' = currentCamera s"
    and "currentMic s' = currentMic s"
    and "streamCamera s \<noteq> None \<Longrightarrow> streamCamera s' = streamCamera s"
  using assms
  by (auto simp: startCameraStream_def Let_def emit_def newStream_def case_prod_beta
      split: if_splits)

lemma acquireDisplay_made:
  assumes "acquireDisplay e s = (r, s')"
  shows "trace s' = trace s @ made s s'"
    and "made s s' = [GetDisplayMedia]"
  using assms
  by (auto simp: acquireDisplay_def Let_def emit_def newStream_def case_prod_beta made_def
      split: if_splits)

lemma acquireDisplay_frame:
  assumes "acquireDisplay e s = (r, s')"
  shows "recording s' = recording s" and "showAvatar s' = showAvatar s"
    and "recordCamera s' = recordCamera s" and "recorderCamera s' = recorderCamera s"
    and "recorderSlides s' = recorderSlides s" and "streamCamera s' = streamCamera s"
    and "stopping s' = stopping s"
    and "r = Inr () \<Longrightarrow> streamSlides s' \<noteq> None"
    and "r \<noteq> Inr () \<Longrightarrow> streamSlides s' = streamSlides s"
  using assms
  by (auto simp: acquireDisplay_def Let_def emit_def newStream_def case_prod_beta
      split: if_splits)

lemma recordCameraStream_made:
  assumes "recordCameraStream e ch s = (r, s')"
  shows "trace s' = trace s @ made s s'"
    and "\<not> list_ex is_picker (made s s')"
    and "r = Inr () \<Longrightarrow> filter is_start (made s s') =
           (if streamCamera s \<noteq> None \<and> recordCamera s \<and> ch \<noteq> None
            then [StartRecorder Camera] else [])"
  using assms
  by (auto simp: recordCameraStream_def Let_def emit_def addTrack_def made_def
      split: if_splits option.splits list.splits)

lemma recordCameraStream_frame:
  assumes "recordCameraStream e ch s = (r, s')"
  shows "recording s' = recording s" and "showAvatar s' = showAvatar s"
    and "recordCamera s' = recordCamera s"
    and "recorderSlides s' = recorderSlides s" and "streamCamera s' = streamCamera s"
    and "streamSlides s' = streamSlides s" and "stopping s' = stopping s"
    and "recorderCamera s' = recorderCamera s \<or> (recorderCamera s' \<noteq> None \<and> streamCamera s \<noteq> None)"
  using assms
  by (auto simp: recordCameraStream_def Let_def emit_def addTrack_def
      split: if_splits option.splits list.splits)

lemma recordSlidesStream_made:
  assumes "recordSlidesStream e sh s = (r, s')"
  shows "trace s' = trace s @ made s s'"
    and "\<not> list_ex is_picker (made s s')"
    and "r = Inr () \<Longrightarrow> made s s' = [CreateWritable sh, StartRecorder Slides]"
  using assms
  by (auto simp: recordSlidesStream_def Let_def emit_def made_def
      split: if_splits option.splits)

lemma recordSlidesStream_frame:
  assumes "recordSlidesStream e sh s = (r, s')"
  shows "showAvatar s' = showAvatar s"
    and "recordCamera s' = recordCamera s"
    and "recorderCamera s' = recorderCamera s" and "streamCamera s' = streamCamera s"
    and "streamSlides s' = streamSlides s" and "stopping s' = stopping s"
    and "r = Inr () \<Longrightarrow> recording s' \<and> recorderSlides s' \<noteq> None \<and> streamSlides s \<noteq> None"
    and "r \<noteq> Inr () \<Longrightarrow> recording s' = recording s \<and> recorderSlides s' = recorderSlides s"
  using assms
  by (auto simp: recordSlidesStream_def Let_def emit_def
      split: if_splits option.splits)

lemma startCapture_made:
  assumes run: "startCapture e ch sh s = (r, s')"
  shows "trace s' = trace s @ made s s'"
    and "\<not> list_ex is_picker (made s s')"
    and "made s s' \<noteq> []"
    and "r = Inr () \<Longrightarrow>
           recording s' \<and> last (made s s') = StartRecorder Slides
         \<and> filter is_start (made s s') =
             (if streamCamera s' \<noteq> None \<and> recordCamera s \<and> ch \<noteq> None
              then [StartRecorder Camera, StartRecorder Slides] else [StartRecorder Slides])"
    and "r \<noteq> Inr () \<Longrightarrow> recording s' = recording s"
proof -
  obtain r3 s3 where p3: "importRecorder e (emit EnsurePermissions s) = (r3, s3)"
    by (cases "importRecorder e (emit EnsurePermissions s)") auto
  obtain r4 s4 where p4: "startCameraStream e s3 = (r4, s4)"
    by (cases "startCameraStream e s3") auto
  obtain r5 s5 where p5: "acquireDisplay e s4 = (r5, s5)"
    by (cases "acquireDisplay e s4") auto
  obtain r6 s6 where p6: "recordCameraStream e ch s5 = (r6, s6)"
    by (cases "recordCameraStream e ch s5") auto
  obtain r7 s7 where p7: "recordSlidesStream e sh s6 = (r7, s7)"
    by (cases "recordSlidesStream e sh s6") auto
  note m3 = importRecorder_made [OF p3]
  note m4 = startCameraStream_made [OF p4] and f4 = startCameraStream_frame [OF p4]
  note m5 = acquireDisplay_made [OF p5] and f5 = acquireDisplay_frame [OF p5]
  note m6 = recordCameraStream_made [OF p6] and f6 = recordCameraStream_frame [OF p6]
  note m7 = recordSlidesStream_made [OF p7] and f7 = recordSlidesStream_frame [OF p7]
  note t4 = made_trans [OF m3(1) m4(1)]
  note t5 = made_trans [OF t4(1) m5(1)]
  note t6 = made_trans [OF t5(1) m6(1)]
  note t7 = made_trans [OF t6(1) m7(1)]
  have rec3: "recording s3 = recording s" and rc3: "recordCamera s3 = recordCamera s"
    using m3(3) by (simp_all add: emit_def)
  consider (i) "r3 \<noteq> Inr ()" "r = r3" "s' = s3"
    | (c) "r3 = Inr ()" "r4 \<noteq> Inr ()" "r = r4" "s' = s4"
    | (d) "r3 = Inr ()" "r4 = Inr ()" "r5 \<noteq> Inr ()" "r = r5" "s' = s5"
    | (rc) "r3 = Inr ()" "r4 = Inr ()" "r5 = Inr ()" "r6 \<noteq> Inr ()" "r = r6" "s' = s6"
    | (rs) "r3 = Inr ()" "r4 = Inr ()" "r5 = Inr ()" "r6 = Inr ()" "r = r7" "s' = s7"
    using run p3 p4 p5 p6 p7
    by (auto simp: startCapture_def split: sum.splits)
  note cases = this
  show "trace s' = trace s @ made s s'"
    using cases m3(1) t4(1) t5(1) t6(1) t7(1) by cases simp_all
  show "\<not> list_ex is_picker (made s s')"
    using cases m3(2) t4(2) t5(2) t6(2) t7(2) m4(2) m5(2) m6(2) m7(2)
    by cases simp_all
  show "made s s' \<noteq> []"
    using cases m3(2) t4(2) t5(2) t6(2) t7(2) by cases simp_all
  show "recording s' \<and> last (made s s') = StartRecorder Slides
         \<and> filter is_start (made s s') =
             (if streamCamera s' \<noteq> None \<and> recordCamera s \<and> ch \<noteq> None
              then [StartRecorder Camera, StartRecorder Slides] else [StartRecorder Slides])"
    if "r = Inr ()"
  proof -
    from cases that have ok: "r3 = Inr ()" "r4 = Inr ()" "r5 = Inr ()" "r6 = Inr ()" "r7 = Inr ()"
      and fin: "s' = s7"
      by (cases; simp)+
    have cam: "streamCamera s7 = streamCamera s5" "recordCamera s5 = recordCamera s"
      using f7 f6 f5 f4 rc3 by simp_all
    show ?thesis
      using ok fin f7(7) m7(3) m6(3) m3(2) m4(3) m5(2) t4(2) t5(2) t6(2) t7(2) cam
      by simp
  qed
  show "recording s' = recording s" if "r \<noteq> Inr ()"
    using cases that rec3 f4(1) f5(1) f6(1) f7(8) by cases simp_all
qed

lemma destinations_pickers:
  "list_all is_picker (destinations e s)" "destinations e s \<noteq> []"
  by (simp_all add: destinations_def)

lemma pickers_then_quiet:
  assumes "list_all is_picker ps" and "\<not> list_ex is_picker rest"
  shows "takeWhile is_picker (ps @ rest) = ps" and "dropWhile is_picker (ps @ rest) = rest"
proof -
  have all: "\<forall>x \<in> set ps. is_picker x"
    using assms(1) by (simp add: list_all_iff)
  have rest: "rest = [] \<or> \<not> is_picker (hd rest)"
    using assms(2) by (cases rest) simp_all
  show "takeWhile is_picker (ps @ rest) = ps"
    using all rest by (cases rest) simp_all
  show "dropWhile is_picker (ps @ rest) = rest"
    using all rest by (cases rest) simp_all
qed

lemma only_prompts:
  assumes tr: "trace s' = trace s @ take n (destinations e s)"
    and n: "0 < n" "n \<le> length (destinations e s)"
    and fl: "recording s' = recording s" and r: "r \<noteq> Inr ()"
  shows "trace s' = trace s @ made s s'
       \<and> (\<exists>n>0. takeWhile is_picker (made s s') = take n (destinations e s))
       \<and> \<not> list_ex is_picker (dropWhile is_picker (made s s'))
       \<and> (dropWhile is_picker (made s s') \<noteq> [] \<longrightarrow>
            takeWhile is_picker (made s s') = destinations e s)
       \<and> (r = Inr () \<longrightarrow>
            recording s' \<and> last (made s s') = StartRecorder Slides
          \<and> filter is_start (made s s') =
              (if recordCamera s \<and> streamCamera s' \<noteq> None
               then [StartRecorder Camera, StartRecorder Slides] else [StartRecorder Slides]))
       \<and> (r \<noteq> Inr () \<longrightarrow> recording s' = recording s)"
proof -
  have m: "made s s' = take n (destinations e s)"
    using tr by (rule made_append)
  have "list_all is_picker (take n (destinations e s))"
    using destinations_pickers(1) [of e s]
    by (auto simp: list_all_iff dest: in_set_takeD)
  from pickers_then_quiet [OF this, of "[]"]
  have tw: "takeWhile is_picker (take n (destinations e s)) = take n (destinations e s)"
    and dw: "dropWhile is_picker (take n (destinations e s)) = []"
    by simp_all
  show ?thesis
  proof (intro conjI impI)
    show "trace s' = trace s @ made s s'" using tr m by simp
    show "\<exists>n>0. takeWhile is_picker (made s s') = take n (destinations e s)"
      using tw n(1) unfolding m by blast
    show "\<not> list_ex is_picker (dropWhile is_picker (made s s'))"
      unfolding m dw by simp
    show "takeWhile is_picker (made s s') = destinations e s"
      if "dropWhile is_picker (made s s') \<noteq> []"
      using that unfolding m dw by simp
    show "recording s'" if "r = Inr ()" using that r by simp
    show "last (made s s') = StartRecorder Slides" if "r = Inr ()" using that r by simp
    show "filter is_start (made s s') =
              (if recordCamera s \<and> streamCamera s' \<noteq> None
               then [StartRecorder Camera, StartRecorder Slides] else [StartRecorder Slides])"
      if "r = Inr ()" using that r by simp
    show "recording s' = recording s" by (rule fl)
  qed
qed

lemma after_handles:
  assumes tr: "trace s2 = trace s @ destinations e s"
    and fl: "recording s2 = recording s" and rc: "recordCamera s2 = recordCamera s"
    and ch: "(ch \<noteq> None) = recordCamera s"
    and run: "startCapture e ch sh s2 = (r, s')"
  shows "trace s' = trace s @ made s s'
       \<and> (\<exists>n>0. takeWhile is_picker (made s s') = take n (destinations e s))
       \<and> \<not> list_ex is_picker (dropWhile is_picker (made s s'))
       \<and> (dropWhile is_picker (made s s') \<noteq> [] \<longrightarrow>
            takeWhile is_picker (made s s') = destinations e s)
       \<and> (r = Inr () \<longrightarrow>
            recording s' \<and> last (made s s') = StartRecorder Slides
          \<and> filter is_start (made s s') =
              (if recordCamera s \<and> streamCamera s' \<noteq> None
               then [StartRecorder Camera, StartRecorder Slides] else [StartRecorder Slides]))
       \<and> (r \<noteq> Inr () \<longrightarrow> recording s' = recording s)"
proof -
  note c = startCapture_made [OF run]
  have tr2: "trace s2 = trace s @ made s s2" and m2: "made s s2 = destinations e s"
    using tr made_append [OF tr] by simp_all
  note t = made_trans [OF tr2 c(1)]
  have m: "made s s' = destinations e s @ made s2 s'"
    using t(2) m2 by simp
  note pq = pickers_then_quiet [OF destinations_pickers(1) c(2), of e s]
  have tw: "takeWhile is_picker (made s s') = take (length (destinations e s)) (destinations e s)"
    and dw: "dropWhile is_picker (made s s') = made s2 s'"
    using pq by (simp_all add: m)
  have pos: "0 < length (destinations e s)"
    using destinations_pickers(2) [of e s] by simp
  have nostart: "filter is_start (destinations e s) = []"
    by (simp add: destinations_def)
  have ex: "\<exists>n>0. takeWhile is_picker (made s s') = take n (destinations e s)"
    using tw pos by blast
  have ok: "recording s' \<and> last (made s s') = StartRecorder Slides
          \<and> filter is_start (made s s') =
              (if recordCamera s \<and> streamCamera s' \<noteq> None
               then [StartRecorder Camera, StartRecorder Slides] else [StartRecorder Slides])"
    if "r = Inr ()"
    using c(4) [OF that] c(3) ch rc by (auto simp: m nostart)
  have ko: "recording s' = recording s" if "r \<noteq> Inr ()"
    using c(5) [OF that] fl by simp
  from t(1) ex dw c(2) tw ok ko show ?thesis
    by simp
qed

text \<open>
  C9. Whatever the platform answers, the calls \<open>startRecording\<close> makes begin with the
  prompts for the save-file destinations, in order (the camera file only when camera
  recording is on, then the screen file); no prompt comes after another call, and another
  call is made only once all destinations were asked for. When \<open>startRecording\<close>
  returns, the flag \<open>recording\<close> is true, the last call made is the start of the screen
  recorder, and the recorders started are the camera recorder (when camera recording is on
  and there is a camera stream) and then the screen recorder. When it is rejected, at
  whatever call, the flag is what it was.
\<close>

theorem startRecording_order:
  assumes run: "startRecording e s = (r, s')"
  shows "trace s' = trace s @ made s s'
       \<and> (\<exists>n>0. takeWhile is_picker (made s s') = take n (destinations e s))
       \<and> \<not> list_ex is_picker (dropWhile is_picker (made s s'))
       \<and> (dropWhile is_picker (made s s') \<noteq> [] \<longrightarrow>
            takeWhile is_picker (made s s') = destinations e s)
       \<and> (r = Inr () \<longrightarrow>
            recording s' \<and> last (made s s') = StartRecorder Slides
          \<and> filter is_start (made s s') =
              (if recordCamera s \<and> streamCamera s' \<noteq> None
               then [StartRecorder Camera, StartRecorder Slides] else [StartRecorder Slides]))
       \<and> (r \<noteq> Inr () \<longrightarrow> recording s' = recording s)"
proof (cases "recordCamera s")
  case True
  let ?c = "filenameNow e ''camera'' s"
  let ?s1 = "emit (ShowSaveFilePicker ?c) s"
  let ?n = "filenameNow e ''screen'' ?s1"
  let ?s2 = "emit (ShowSaveFilePicker ?n) ?s1"
  have dest: "destinations e s = [ShowSaveFilePicker ?c, ShowSaveFilePicker ?n]"
    using True by (simp add: destinations_def)
  show ?thesis
  proof (cases "showSaveFilePicker e ?c")
    case None
    with True run have r: "r = Inl PickerAborted" and s': "s' = ?s1"
      by (simp_all add: startRecording_def cameraHandle_def getFileHandle_def)
    show ?thesis
      by (rule only_prompts [where n = 1]) (simp_all add: dest emit_def r s')
  next
    case (Some h)
    show ?thesis
    proof (cases "showSaveFilePicker e ?n")
      case None
      with True Some run have r: "r = Inl PickerAborted" and s': "s' = ?s2"
        by (simp_all add: startRecording_def cameraHandle_def getFileHandle_def)
      show ?thesis
        by (rule only_prompts [where n = 2]) (simp_all add: dest emit_def r s')
    next
      case (Some sh)
      with True \<open>showSaveFilePicker e ?c = Some h\<close> run
      have "startCapture e (Some h) sh ?s2 = (r, s')"
        by (simp add: startRecording_def cameraHandle_def getFileHandle_def)
      then show ?thesis
        using True by (intro after_handles [where ?s2.0 = ?s2 and ch = "Some h" and sh = sh])
          (simp_all add: dest emit_def)
    qed
  qed
next
  case False
  let ?n = "filenameNow e ''screen'' s"
  let ?s2 = "emit (ShowSaveFilePicker ?n) s"
  have dest: "destinations e s = [ShowSaveFilePicker ?n]"
    using False by (simp add: destinations_def)
  show ?thesis
  proof (cases "showSaveFilePicker e ?n")
    case None
    with False run have r: "r = Inl PickerAborted" and s': "s' = ?s2"
      by (simp_all add: startRecording_def cameraHandle_def getFileHandle_def)
    show ?thesis
      by (rule only_prompts [where n = 1]) (simp_all add: dest emit_def r s')
  next
    case (Some sh)
    with False run have "startCapture e None sh ?s2 = (r, s')"
      by (simp add: startRecording_def cameraHandle_def getFileHandle_def)
    then show ?thesis
      using False by (intro after_handles [where ?s2.0 = ?s2 and ch = None and sh = sh])
        (simp_all add: dest emit_def)
  qed
qed

subsection \<open>Stopping a recording\<close>

lemma stopRecording_fields:
  "\<not> recording (stopRecording s)"
  "showAvatar (stopRecording s) = showAvatar s"
  "streamCamera (stopRecording s) = streamCamera s"
  "streamSlides (stopRecording s) = streamSlides s"
  "streams (stopRecording s) = streams s"
  "tracks (stopRecording s) = tracks s"
  "(recorderCamera (stopRecording s) = None) = (recorderCamera s = None)"
  "(recorderSlides (stopRecording s) = None) = (recorderSlides s = None)"
  "stopping (stopRecording s) =
     stopping s @ (if recorderCamera s = None then [] else [Camera])
       @ (if recorderSlides s = None then [] else [Slides])"
  by (simp_all add: stopRecording_def stopRecorder_def emit_def split: option.split)

lemma stopCallback_stopping: "stopping (stopCallback k s) = stopping s"
  by (cases k) (simp_all add: closeStream_Camera_eq closeStream_Slides_eq Let_def split: option.split)

lemma stopCallback_stopping_update:
  "stopCallback k (s\<lparr>stopping := xs\<rparr>) = (stopCallback k s)\<lparr>stopping := xs\<rparr>"
  by (cases k) (simp_all add: closeStream_Camera_eq closeStream_Slides_eq Let_def split: option.split)

lemma drain_two:
  assumes "k \<in> set (stopping s)" and "k' \<in> set (stopping s)" and "k \<noteq> k'"
  shows "drain [k, k'] s =
           Some ((stopCallback k' (stopCallback k s))
                   \<lparr>stopping := remove1 k' (remove1 k (stopping s))\<rparr>)"
  using assms
  by (simp add: engineStopped_def stopCallback_stopping_update stopCallback_stopping)

lemma drain_one:
  assumes "k \<in> set (stopping s)"
  shows "drain [k] s = Some ((stopCallback k s)\<lparr>stopping := remove1 k (stopping s)\<rparr>)"
  using assms by (simp add: engineStopped_def stopCallback_stopping_update)

text \<open>The two callbacks, in both orders, on a session whose screen stream is set.\<close>

lemma callbacks_released:
  assumes sl: "streamSlides s = Some sl"
    and f: "f = stopCallback Slides (stopCallback Camera s) \<or> f = stopCallback Camera (stopCallback Slides s)"
  shows "recorderCamera f = None" and "recorderSlides f = None" and "streamSlides f = None"
    and "t \<in> set (getTracks sl s) \<Longrightarrow> ended (tracks f t)"
    and "\<not> showAvatar s \<Longrightarrow> streamCamera f = None"
    and "\<not> showAvatar s \<Longrightarrow> streamCamera s = Some cam \<Longrightarrow> t \<in> set (getTracks cam s) \<Longrightarrow>
           ended (tracks f t)"
    and "showAvatar s \<Longrightarrow> streamCamera f = streamCamera s"
    and "showAvatar s \<Longrightarrow> t \<notin> set (getTracks sl s) \<Longrightarrow> tracks f t = tracks s t"
  using assms
  by (auto simp: closeStream_Camera_eq closeStream_Slides_eq Let_def stopAll_def getTracks_def
      split: option.splits if_splits)

lemma slides_callback_released:
  assumes sl: "streamSlides s = Some sl" and "recorderCamera s = None"
  shows "recorderCamera (stopCallback Slides s) = None"
    and "recorderSlides (stopCallback Slides s) = None"
    and "streamSlides (stopCallback Slides s) = None"
    and "t \<in> set (getTracks sl s) \<Longrightarrow> ended (tracks (stopCallback Slides s) t)"
    and "streamCamera (stopCallback Slides s) = streamCamera s"
  using assms
  by (auto simp: closeStream_Slides_eq Let_def stopAll_def getTracks_def)

lemma startCapture_frame:
  assumes run: "startCapture e ch sh s = (r, s')"
  shows "showAvatar s' = showAvatar s"
    and "r = Inr () \<Longrightarrow> recorderSlides s' \<noteq> None \<and> streamSlides s' \<noteq> None"
    and "recorder_has_stream Camera s \<Longrightarrow> recorder_has_stream Camera s'"
    and "recorder_has_stream Slides s \<Longrightarrow> recorder_has_stream Slides s'"
proof -
  obtain r3 s3 where p3: "importRecorder e (emit EnsurePermissions s) = (r3, s3)"
    by (cases "importRecorder e (emit EnsurePermissions s)") auto
  obtain r4 s4 where p4: "startCameraStream e s3 = (r4, s4)"
    by (cases "startCameraStream e s3") auto
  obtain r5 s5 where p5: "acquireDisplay e s4 = (r5, s5)"
    by (cases "acquireDisplay e s4") auto
  obtain r6 s6 where p6: "recordCameraStream e ch s5 = (r6, s6)"
    by (cases "recordCameraStream e ch s5") auto
  obtain r7 s7 where p7: "recordSlidesStream e sh s6 = (r7, s7)"
    by (cases "recordSlidesStream e sh s6") auto
  note f4 = startCameraStream_frame [OF p4]
  note f5 = acquireDisplay_frame [OF p5]
  note f6 = recordCameraStream_frame [OF p6]
  note f7 = recordSlidesStream_frame [OF p7]
  have s3: "s3 = emit ImportRecorder (emit EnsurePermissions s)"
    by (rule importRecorder_made(3) [OF p3])
  have a3: "showAvatar s3 = showAvatar s"
    and c3: "recorder_has_stream Camera s3 = recorder_has_stream Camera s"
    and l3: "recorder_has_stream Slides s3 = recorder_has_stream Slides s"
    by (simp_all add: s3 emit_def)
  have c4: "recorder_has_stream Camera s3 \<Longrightarrow> recorder_has_stream Camera s4"
    using f4(4,10) by auto
  have l4: "recorder_has_stream Slides s4 = recorder_has_stream Slides s3"
    using f4(5,6) by simp
  have c5: "recorder_has_stream Camera s5 = recorder_has_stream Camera s4"
    using f5(4,6) by simp
  have l5: "recorder_has_stream Slides s4 \<Longrightarrow> recorder_has_stream Slides s5"
    using f5(5,8,9) by (cases "r5 = Inr ()") auto
  have c6: "recorder_has_stream Camera s5 \<Longrightarrow> recorder_has_stream Camera s6"
    using f6(5,8) by auto
  have l6: "recorder_has_stream Slides s6 = recorder_has_stream Slides s5"
    using f6(4,6) by simp
  have c7: "recorder_has_stream Camera s7 = recorder_has_stream Camera s6"
    using f7(3,4) by simp
  have l7: "recorder_has_stream Slides s6 \<Longrightarrow> recorder_has_stream Slides s7"
    using f7(5,7,8) by (cases "r7 = Inr ()") auto
  consider (i) "r3 \<noteq> Inr ()" "r = r3" "s' = s3"
    | (c) "r3 = Inr ()" "r4 \<noteq> Inr ()" "r = r4" "s' = s4"
    | (d) "r3 = Inr ()" "r4 = Inr ()" "r5 \<noteq> Inr ()" "r = r5" "s' = s5"
    | (rc) "r3 = Inr ()" "r4 = Inr ()" "r5 = Inr ()" "r6 \<noteq> Inr ()" "r = r6" "s' = s6"
    | (rs) "r3 = Inr ()" "r4 = Inr ()" "r5 = Inr ()" "r6 = Inr ()" "r = r7" "s' = s7"
    using run p3 p4 p5 p6 p7
    by (auto simp: startCapture_def split: sum.splits)
  note cases = this
  show "showAvatar s' = showAvatar s"
    using cases a3 f4(2) f5(2) f6(2) f7(1) by cases simp_all
  show "recorderSlides s' \<noteq> None \<and> streamSlides s' \<noteq> None" if "r = Inr ()"
    using cases that f7(5,7) by cases simp_all
  show "recorder_has_stream Camera s'" if "recorder_has_stream Camera s"
    using cases that c3 c4 c5 c6 c7 by cases simp_all
  show "recorder_has_stream Slides s'" if "recorder_has_stream Slides s"
    using cases that l3 l4 l5 l6 l7 by cases simp_all
qed

lemma startRecording_frame:
  assumes run: "startRecording e s = (r, s')"
  shows "showAvatar s' = showAvatar s"
    and "r = Inr () \<Longrightarrow> recorderSlides s' \<noteq> None \<and> streamSlides s' \<noteq> None"
    and "recorder_has_stream Camera s \<Longrightarrow> recorder_has_stream Camera s'"
    and "recorder_has_stream Slides s \<Longrightarrow> recorder_has_stream Slides s'"
proof -
  have "(\<exists>x. s' = emit x s \<and> r \<noteq> Inr ())
      \<or> (\<exists>x y. s' = emit y (emit x s) \<and> r \<noteq> Inr ())
      \<or> (\<exists>x ch sh. startCapture e ch sh (emit x s) = (r, s'))
      \<or> (\<exists>x y ch sh. startCapture e ch sh (emit y (emit x s)) = (r, s'))"
    using run
    by (auto simp: startRecording_def cameraHandle_def getFileHandle_def
        split: if_splits option.splits)
  then consider (a) x where "s' = emit x s" "r \<noteq> Inr ()"
    | (b) x y where "s' = emit y (emit x s)" "r \<noteq> Inr ()"
    | (c) x ch sh where "startCapture e ch sh (emit x s) = (r, s')"
    | (d) x y ch sh where "startCapture e ch sh (emit y (emit x s)) = (r, s')"
    by blast
  note cases = this
  show "showAvatar s' = showAvatar s"
    using cases
    by cases (auto simp: emit_def dest: startCapture_frame(1))
  show "recorderSlides s' \<noteq> None \<and> streamSlides s' \<noteq> None" if "r = Inr ()"
    using cases that
    by cases (auto dest: startCapture_frame(2))
  show "recorder_has_stream Camera s'" if "recorder_has_stream Camera s"
    using cases that
    by cases (auto simp: emit_def dest!: startCapture_frame(3))
  show "recorder_has_stream Slides s'" if "recorder_has_stream Slides s"
    using cases that
    by cases (auto simp: emit_def dest!: startCapture_frame(4))
qed

lemma slides_callback_kept:
  assumes "streamSlides s = Some sl" and "t \<notin> set (getTracks sl s)"
  shows "tracks (stopCallback Slides s) t = tracks s t"
  using assms by (simp add: closeStream_Slides_eq stopAll_def getTracks_def)

text \<open>
  C5, as the code has it. After a \<open>startRecording\<close> that returned, \<open>stopRecording\<close>
  clears the flag \<open>recording\<close> at once. The engine owes one confirmation for each
  recorder that is set; once it has confirmed them, in either order, both recorder
  references and the screen stream reference are unset and every track of the screen
  stream (the microphone track taken from the camera stream among them) is stopped. When
  a camera recorder was set and the avatar preview is hidden, the camera stream reference
  is unset and every track of the camera stream is stopped. When the preview is showing,
  the camera stream is kept, and its tracks outside the screen stream are untouched.
\<close>

theorem stopRecording_releases:
  assumes run: "startRecording e s = (Inr (), s1)"
  shows "\<not> recording (stopRecording s1)
       \<and> (order \<in> set (if recorderCamera s1 = None then [[Slides]]
                        else [[Camera, Slides], [Slides, Camera]]) \<longrightarrow>
           (\<exists>f. drain order (stopRecording s1) = Some f
              \<and> recorderCamera f = None \<and> recorderSlides f = None \<and> streamSlides f = None
              \<and> (\<forall>sl t. streamSlides s1 = Some sl \<and> t \<in> set (getTracks sl s1) \<longrightarrow>
                    ended (tracks f t))
              \<and> (recorderCamera s1 \<noteq> None \<and> \<not> showAvatar s1 \<longrightarrow>
                    streamCamera f = None
                  \<and> (\<forall>cam t. streamCamera s1 = Some cam \<and> t \<in> set (getTracks cam s1) \<longrightarrow>
                        ended (tracks f t)))
              \<and> (showAvatar s1 \<longrightarrow>
                    streamCamera f = streamCamera s1
                  \<and> (\<forall>sl t. streamSlides s1 = Some sl \<and> t \<notin> set (getTracks sl s1) \<longrightarrow>
                        tracks f t = tracks s1 t))))"
proof (intro conjI impI)
  let ?s2 = "stopRecording s1"
  show "\<not> recording ?s2" by (rule stopRecording_fields(1))
  assume ord: "order \<in> set (if recorderCamera s1 = None then [[Slides]]
                        else [[Camera, Slides], [Slides, Camera]])"
  from startRecording_frame(2) [OF run]
  obtain sl where sl: "streamSlides s1 = Some sl" and rs: "recorderSlides s1 \<noteq> None"
    by auto
  have sl2: "streamSlides ?s2 = Some sl"
    and tr2: "getTracks a ?s2 = getTracks a s1" for a
    using sl by (simp_all add: stopRecording_fields getTracks_def)
  have S: "Slides \<in> set (stopping ?s2)"
    using rs by (auto simp: stopRecording_fields(9))
  show "\<exists>f. drain order ?s2 = Some f
              \<and> recorderCamera f = None \<and> recorderSlides f = None \<and> streamSlides f = None
              \<and> (\<forall>sl t. streamSlides s1 = Some sl \<and> t \<in> set (getTracks sl s1) \<longrightarrow>
                    ended (tracks f t))
              \<and> (recorderCamera s1 \<noteq> None \<and> \<not> showAvatar s1 \<longrightarrow>
                    streamCamera f = None
                  \<and> (\<forall>cam t. streamCamera s1 = Some cam \<and> t \<in> set (getTracks cam s1) \<longrightarrow>
                        ended (tracks f t)))
              \<and> (showAvatar s1 \<longrightarrow>
                    streamCamera f = streamCamera s1
                  \<and> (\<forall>sl t. streamSlides s1 = Some sl \<and> t \<notin> set (getTracks sl s1) \<longrightarrow>
                        tracks f t = tracks s1 t))"
  proof (cases "recorderCamera s1 = None")
    case True
    then have rc2: "recorderCamera ?s2 = None"
      by (simp add: stopRecording_fields(7))
    from True ord have order: "order = [Slides]" by simp
    note rel = slides_callback_released [OF sl2 rc2] slides_callback_kept [OF sl2]
    show ?thesis
      unfolding order drain_one [OF S]
      using rel sl True
      by (auto simp: tr2 stopRecording_fields)
  next
    case False
    then have C: "Camera \<in> set (stopping ?s2)"
      by (auto simp: stopRecording_fields(9))
    from False ord consider (cs) "order = [Camera, Slides]" | (sc) "order = [Slides, Camera]"
      by auto
    then show ?thesis
    proof cases
      case cs
      define g where "g = stopCallback Slides (stopCallback Camera ?s2)"
      then have g: "g = stopCallback Slides (stopCallback Camera ?s2)
                  \<or> g = stopCallback Camera (stopCallback Slides ?s2)"
        by simp
      note rel = callbacks_released [OF sl2 g]
      have "drain order ?s2 = Some (g\<lparr>stopping := remove1 Slides (remove1 Camera (stopping ?s2))\<rparr>)"
        unfolding cs g_def by (rule drain_two [OF C S]) simp
      then show ?thesis
        using rel sl by (auto simp: tr2 stopRecording_fields)
    next
      case sc
      define g where "g = stopCallback Camera (stopCallback Slides ?s2)"
      then have g: "g = stopCallback Slides (stopCallback Camera ?s2)
                  \<or> g = stopCallback Camera (stopCallback Slides ?s2)"
        by simp
      note rel = callbacks_released [OF sl2 g]
      have "drain order ?s2 = Some (g\<lparr>stopping := remove1 Camera (remove1 Slides (stopping ?s2))\<rparr>)"
        unfolding sc g_def by (rule drain_two [OF S C]) simp
      then show ?thesis
        using rel sl by (auto simp: tr2 stopRecording_fields)
    qed
  qed
qed

subsection \<open>Recorders and their streams\<close>

lemma startCameraStream_snd:
  "recorderSlides (snd (startCameraStream e s)) = recorderSlides s"
  "streamSlides (snd (startCameraStream e s)) = streamSlides s"
  "recorderCamera (snd (startCameraStream e s)) = recorderCamera s"
  "streamCamera s \<noteq> None \<Longrightarrow> streamCamera (snd (startCameraStream e s)) = streamCamera s"
  using startCameraStream_frame [of e s "fst (startCameraStream e s)" "snd (startCameraStream e s)"]
  by simp_all

lemma closeStream_Camera_slides:
  "recorderSlides (closeStream Camera s) = recorderSlides s"
  "streamSlides (closeStream Camera s) = streamSlides s"
  "recorderCamera (closeStream Camera s) = recorderCamera s"
  by (simp_all add: closeStream_Camera_eq split: option.split)

lemma toggleAvatar_slides:
  "recorderSlides (snd (toggleAvatar e s)) = recorderSlides s"
  "streamSlides (snd (toggleAvatar e s)) = streamSlides s"
proof -
  obtain r s1 where p: "startCameraStream e s = (r, s1)"
    by (cases "startCameraStream e s") auto
  note f = startCameraStream_frame [OF p]
  show "recorderSlides (snd (toggleAvatar e s)) = recorderSlides s"
    using f(5) by (simp add: toggleAvatar_def Let_def closeStream_Camera_slides p split: sum.split)
  show "streamSlides (snd (toggleAvatar e s)) = streamSlides s"
    using f(6) by (simp add: toggleAvatar_def Let_def closeStream_Camera_slides p split: sum.split)
qed

lemma watchCurrentCamera_slides:
  "recorderSlides (snd (watchCurrentCamera e v s)) = recorderSlides s"
  "streamSlides (snd (watchCurrentCamera e v s)) = streamSlides s"
  by (simp_all add: watchCurrentCamera_def closeStream_Camera_slides startCameraStream_snd)

lemma onUpdated_refs:
  "recorderSlides (onUpdated s) = recorderSlides s" "streamSlides (onUpdated s) = streamSlides s"
  "recorderCamera (onUpdated s) = recorderCamera s" "streamCamera (onUpdated s) = streamCamera s"
  by (simp_all add: onUpdated_def Let_def)

lemma setCurrentCamera_slides:
  "recorderSlides (setCurrentCamera e v s) = recorderSlides s"
  "streamSlides (setCurrentCamera e v s) = streamSlides s"
  by (simp_all add: setCurrentCamera_def watchCurrentCamera_slides)

lemma devicesUpdated_slides:
  "recorderSlides (devicesUpdated e cams mics s) = recorderSlides s"
  "streamSlides (devicesUpdated e cams mics s) = streamSlides s"
  by (simp_all add: devicesUpdated_def Let_def watchCurrentCamera_slides onUpdated_refs)

lemma stopRecording_refs:
  "recorder_has_stream k (stopRecording s) = recorder_has_stream k s"
  by (cases k) (simp_all add: stopRecording_fields)

lemma stopCallback_refs:
  "recorder_has_stream Slides s \<Longrightarrow> recorder_has_stream Slides (stopCallback k s)"
  "recorder_has_stream Camera s \<Longrightarrow> recorder_has_stream Camera (stopCallback k s)"
  by (cases k; simp add: closeStream_Camera_eq closeStream_Slides_eq Let_def split: option.split)+

lemma engineStopped_refs:
  assumes "engineStopped k s = Some s'" and "recorder_has_stream j s"
  shows "recorder_has_stream j s'"
proof -
  from assms(1) have s': "s' = (stopCallback k s)\<lparr>stopping := remove1 k (stopping s)\<rparr>"
    by (auto simp: engineStopped_def stopCallback_stopping_update split: if_splits)
  show ?thesis
    using assms(2) stopCallback_refs [of s k] unfolding s' by (cases j) simp_all
qed

lemma reachable_slides: "reachable s \<Longrightarrow> recorder_has_stream Slides s"
proof (induction rule: reachable.induct)
  case (r_initial cam mic)
  show ?case by (simp add: initial_def)
next
  case (r_camera s e v)
  then show ?case by (simp add: setCurrentCamera_slides)
next
  case (r_mic s v)
  then show ?case by simp
next
  case (r_name s v)
  then show ?case by simp
next
  case (r_recordCamera s b)
  then show ?case by simp
next
  case (r_devices s e cams mics)
  then show ?case by (simp add: devicesUpdated_slides)
next
  case (r_toggle s e)
  then show ?case by (simp add: toggleAvatar_slides)
next
  case (r_start s e)
  then show ?case
    using startRecording_frame(4) [of e s "fst (startRecording e s)" "snd (startRecording e s)"]
    by simp
next
  case (r_stop s)
  then show ?case by (simp add: stopRecording_refs)
next
  case (r_engine s k s')
  then show ?case by (blast intro: engineStopped_refs)
qed

text \<open>
  C2, as the code has it. In every reachable state a screen recorder that is set has its
  screen stream set. For the camera, \<open>startRecording\<close>, \<open>stopRecording\<close>, the
  confirmation of a stop, the device list handler, \<open>toggleAvatar\<close> during a recording and
  the reaction to a camera other than \<open>none\<close> during a recording keep ``a camera recorder
  that is set has its stream set''.
\<close>

theorem recorder_invariant:
  "(reachable s \<longrightarrow> recorder_has_stream Slides s)
   \<and> (recorder_has_stream Camera s \<longrightarrow>
        recorder_has_stream Camera (snd (startRecording e s))
      \<and> recorder_has_stream Camera (stopRecording s)
      \<and> (\<forall>s'. engineStopped k s = Some s' \<longrightarrow> recorder_has_stream Camera s')
      \<and> recorder_has_stream Camera (onUpdated s)
      \<and> (recording s \<longrightarrow> recorder_has_stream Camera (snd (toggleAvatar e s)))
      \<and> (recording s \<and> v \<noteq> ''none'' \<longrightarrow>
            recorder_has_stream Camera (snd (watchCurrentCamera e v s))))"
proof (intro conjI impI allI)
  show "recorder_has_stream Slides s" if "reachable s"
    using that by (rule reachable_slides)
next
  assume cam: "recorder_has_stream Camera s"
  show "recorder_has_stream Camera (snd (startRecording e s))"
    using startRecording_frame(3) [of e s "fst (startRecording e s)" "snd (startRecording e s)"] cam
    by simp
  show "recorder_has_stream Camera (stopRecording s)"
    using cam by (simp add: stopRecording_refs)
  show "recorder_has_stream Camera s'" if "engineStopped k s = Some s'" for s'
    using that cam by (rule engineStopped_refs)
  show "recorder_has_stream Camera (onUpdated s)"
    using cam by (simp add: onUpdated_refs)
  show "recorder_has_stream Camera (snd (toggleAvatar e s))" if "recording s"
  proof (cases "streamCamera s = None")
    case True
    with cam have "recorderCamera s = None" by simp
    obtain r s1 where p: "startCameraStream e s = (r, s1)"
      by (cases "startCameraStream e s") auto
    from \<open>recorderCamera s = None\<close> startCameraStream_frame(4) [OF p]
    have "recorderCamera s1 = None" by simp
    with \<open>recorderCamera s = None\<close> show ?thesis
      using that
      by (simp add: toggleAvatar_def Let_def p split: sum.split)
  next
    case False
    then show ?thesis
      using that
      by (auto simp: toggleAvatar_def Let_def startCameraStream_existing emit_def)
  qed
  show "recorder_has_stream Camera (snd (watchCurrentCamera e v s))"
    if "recording s \<and> v \<noteq> ''none''"
    using that cam by (simp add: watchCurrentCamera_def)
qed

subsection \<open>The concrete recordings\<close>

lemmas run_defs =
  startRecording_def startCapture_def cameraHandle_def getFileHandle_def filenameNow_def
  getFilename_def pad_def padStart_def toString.simps digit_def importRecorder_def
  startCameraStream_def acquireDisplay_def recordCameraStream_def recordSlidesStream_def
  newStream_def requested_def emit_def addTrack_def getAudioTracks_def getTracks_def
  toggleAvatar_def initial_def granting_def Let_def

lemma started_run: "startRecording granting (initial ''cam1'' ''mic1'') = (Inr (), started)"
  unfolding started_def by (simp add: run_defs)

lemma started_fields:
  "recording started" "\<not> showAvatar started" "currentCamera started = ''cam1''"
  "recorderCamera started =
     Some \<lparr>rec_stream = 0, rec_file = ''camera-0305-1407.webm'', rec_state = Recording\<rparr>"
  "recorderSlides started =
     Some \<lparr>rec_stream = 3, rec_file = ''screen-0305-1407.webm'', rec_state = Recording\<rparr>"
  "streamCamera started = Some 0" "streamSlides started = Some 3"
  "getTracks 0 started = [1, 2]" "getTracks 3 started = [4, 2]"
  "stopping started = []"
  "trace started =
     [ShowSaveFilePicker ''camera-0305-1407.webm'', ShowSaveFilePicker ''screen-0305-1407.webm'',
      EnsurePermissions, ImportRecorder, EnsurePermissions,
      GetUserMedia (Some ''cam1'') (Some ''mic1''), GetDisplayMedia,
      CreateWritable ''camera-0305-1407.webm'', StartRecorder Camera,
      CreateWritable ''screen-0305-1407.webm'', StartRecorder Slides]"
  unfolding started_def by (simp_all add: run_defs)

lemma started_preview_run: "startRecording granting previewing = (Inr (), started_preview)"
  unfolding started_preview_def previewing_def by (simp add: run_defs)

lemma started_preview_fields:
  "recording started_preview" "showAvatar started_preview"
  "recorderCamera started_preview \<noteq> None"
  "recorderSlides started_preview \<noteq> None"
  "streamCamera started_preview = Some 0" "streamSlides started_preview = Some 3"
  "getTracks 0 started_preview = [1, 2]" "getTracks 3 started_preview = [4, 2]"
  "stopping started_preview = []"
  "\<not> ended (tracks started_preview 1)"
  unfolding started_preview_def previewing_def by (simp_all add: run_defs)

text \<open>
  C5 in the specification's wording (every track of both streams is stopped) fails when
  the avatar preview is showing: the recording is started and stopped, the engine
  confirms both stops, and the camera stream is still set with its video track live.
\<close>

theorem stopRecording_preview_counterexample:
  "startRecording granting previewing = (Inr (), started_preview)
   \<and> drain [Camera, Slides] (stopRecording started_preview) = Some stopped_preview
   \<and> recorderCamera stopped_preview = None \<and> recorderSlides stopped_preview = None
   \<and> streamCamera started_preview = Some 0
   \<and> 1 \<in> set (getTracks 0 started_preview)
   \<and> streamCamera stopped_preview = Some 0
   \<and> \<not> ended (tracks stopped_preview 1)"
proof -
  let ?s2 = "stopRecording started_preview"
  define g where "g = stopCallback Slides (stopCallback Camera ?s2)"
  have C: "Camera \<in> set (stopping ?s2)" and S: "Slides \<in> set (stopping ?s2)"
    using started_preview_fields(3,4) by (auto simp: stopRecording_fields(9))
  have d: "drain [Camera, Slides] ?s2
           = Some (g\<lparr>stopping := remove1 Slides (remove1 Camera (stopping ?s2))\<rparr>)"
    unfolding g_def by (rule drain_two [OF C S]) simp
  then have sp: "stopped_preview = g\<lparr>stopping := remove1 Slides (remove1 Camera (stopping ?s2))\<rparr>"
    by (simp add: stopped_preview_def)
  have sl2: "streamSlides ?s2 = Some 3" and av: "showAvatar ?s2"
    and notin: "1 \<notin> set (getTracks 3 ?s2)"
    by (simp_all add: stopRecording_fields started_preview_fields getTracks_def
        started_preview_fields(8) [unfolded getTracks_def])
  have g: "g = stopCallback Slides (stopCallback Camera ?s2)
         \<or> g = stopCallback Camera (stopCallback Slides ?s2)"
    by (simp add: g_def)
  note rel = callbacks_released [OF sl2 g]
  have "recorderCamera g = None" "recorderSlides g = None"
    "streamCamera g = Some 0" "tracks g 1 = tracks started_preview 1"
    using rel(1,2) rel(7) [OF av] rel(8) [OF av notin]
    by (simp_all add: stopRecording_fields started_preview_fields)
  then show ?thesis
    using d started_preview_run started_preview_fields(10)
    by (simp add: sp started_preview_fields(5,7))
qed

text \<open>
  C2 in the specification's wording (a recorder never outlives its stream) fails when the
  user picks the camera \<open>none\<close> during a recording: the reaction releases the camera
  stream and the camera recorder is still set.
\<close>

theorem recorder_outlives_stream_counterexample:
  "reachable camera_off \<and> recording camera_off
   \<and> recorderCamera camera_off \<noteq> None \<and> streamCamera camera_off = None"
proof -
  have r: "reachable camera_off"
    unfolding camera_off_def started_def by (intro r_camera r_start r_initial)
  have eq: "camera_off = closeStream Camera (started\<lparr>currentCamera := ''none''\<rparr>)"
    by (simp add: camera_off_def setCurrentCamera_def watchCurrentCamera_def started_fields)
  show ?thesis
    using r
    by (simp add: eq closeStream_Camera_released closeStream_Camera_slides started_fields)
qed

lemma started_muted_run: "startRecording granting muted_preview = (Inr (), started_muted)"
  unfolding started_muted_def muted_preview_def by (simp add: run_defs)

lemma started_muted_fields:
  "recorderCamera started_muted = None" "\<not> showAvatar started_muted"
  "streamCamera started_muted = Some 0" "streamSlides started_muted = Some 2"
  "getTracks 0 started_muted = [1]" "getTracks 2 started_muted = [3, 1]"
  unfolding started_muted_def muted_preview_def by (simp_all add: run_defs)

lemma cancelled_run:
  "startRecording cancelling (initial ''cam1'' ''mic1'')
     = (Inl PickerAborted,
        emit (ShowSaveFilePicker ''camera-0305-1407.webm'') (initial ''cam1'' ''mic1''))"
  by (simp add: cancelling_def run_defs)

theorem startRecording_order_witness:
  "startRecording granting (initial ''cam1'' ''mic1'') = (Inr (), started)
   \<and> recording started
   \<and> made (initial ''cam1'' ''mic1'') started =
       [ShowSaveFilePicker ''camera-0305-1407.webm'', ShowSaveFilePicker ''screen-0305-1407.webm'',
        EnsurePermissions, ImportRecorder, EnsurePermissions,
        GetUserMedia (Some ''cam1'') (Some ''mic1''), GetDisplayMedia,
        CreateWritable ''camera-0305-1407.webm'', StartRecorder Camera,
        CreateWritable ''screen-0305-1407.webm'', StartRecorder Slides]
   \<and> takeWhile is_picker (made (initial ''cam1'' ''mic1'') started)
       = destinations granting (initial ''cam1'' ''mic1'')
   \<and> last (made (initial ''cam1'' ''mic1'') started) = StartRecorder Slides
   \<and> filter is_start (made (initial ''cam1'' ''mic1'') started)
       = [StartRecorder Camera, StartRecorder Slides]
   \<and> fst (startRecording cancelling (initial ''cam1'' ''mic1'')) = Inl PickerAborted
   \<and> \<not> recording (snd (startRecording cancelling (initial ''cam1'' ''mic1'')))"
proof -
  have m: "made (initial ''cam1'' ''mic1'') started = trace started"
    by (simp add: made_def initial_def)
  have rc: "recordCamera (initial ''cam1'' ''mic1'')"
    and nr: "\<not> recording (initial ''cam1'' ''mic1'')"
    by (simp_all add: initial_def)
  have dw: "dropWhile is_picker (made (initial ''cam1'' ''mic1'') started) \<noteq> []"
    by (simp add: m started_fields)
  from startRecording_order [OF started_run] dw rc
  have "recording started
      \<and> takeWhile is_picker (made (initial ''cam1'' ''mic1'') started)
          = destinations granting (initial ''cam1'' ''mic1'')
      \<and> last (made (initial ''cam1'' ''mic1'') started) = StartRecorder Slides
      \<and> filter is_start (made (initial ''cam1'' ''mic1'') started)
          = (if streamCamera started \<noteq> None
             then [StartRecorder Camera, StartRecorder Slides] else [StartRecorder Slides])"
    by simp
  moreover from startRecording_order [OF cancelled_run] nr
  have "\<not> recording (snd (startRecording cancelling (initial ''cam1'' ''mic1'')))"
    by (simp add: cancelled_run)
  ultimately show ?thesis
    using started_run by (simp add: started_fields(6) m started_fields(11) cancelled_run)
qed

theorem stopRecording_releases_witness:
  "startRecording granting (initial ''cam1'' ''mic1'') = (Inr (), started)
   \<and> \<not> recording (stopRecording started)
   \<and> recorderCamera started \<noteq> None \<and> \<not> showAvatar started
   \<and> getTracks 0 started = [1, 2] \<and> getTracks 3 started = [4, 2]
   \<and> (\<exists>f. drain [Slides, Camera] (stopRecording started) = Some f
         \<and> recorderCamera f = None \<and> recorderSlides f = None
         \<and> streamCamera f = None \<and> streamSlides f = None
         \<and> ended (tracks f 1) \<and> ended (tracks f 2) \<and> ended (tracks f 4))
   \<and> startRecording granting previewing = (Inr (), started_preview)
   \<and> showAvatar started_preview
   \<and> (\<exists>f. drain [Camera, Slides] (stopRecording started_preview) = Some f
         \<and> recorderCamera f = None \<and> recorderSlides f = None
         \<and> streamCamera f = Some 0 \<and> tracks f 1 = tracks started_preview 1)
   \<and> startRecording granting muted_preview = (Inr (), started_muted)
   \<and> recorderCamera started_muted = None
   \<and> (\<exists>f. drain [Slides] (stopRecording started_muted) = Some f
         \<and> recorderCamera f = None \<and> recorderSlides f = None \<and> streamSlides f = None
         \<and> ended (tracks f 1) \<and> ended (tracks f 3))"
proof -
  have rc: "recorderCamera started \<noteq> None"
    by (simp add: started_fields)
  from stopRecording_releases [OF started_run, of "[Slides, Camera]"] rc
  obtain f where f: "drain [Slides, Camera] (stopRecording started) = Some f"
    "recorderCamera f = None" "recorderSlides f = None" "streamSlides f = None"
    "\<forall>sl t. streamSlides started = Some sl \<and> t \<in> set (getTracks sl started) \<longrightarrow>
        ended (tracks f t)"
    "recorderCamera started \<noteq> None \<and> \<not> showAvatar started \<longrightarrow>
        streamCamera f = None
      \<and> (\<forall>cam t. streamCamera started = Some cam \<and> t \<in> set (getTracks cam started) \<longrightarrow>
            ended (tracks f t))"
    by auto
  from f(5) have "ended (tracks f 4)" "ended (tracks f 2)"
    by (simp_all add: started_fields)
  moreover from f(6) rc have "streamCamera f = None" "ended (tracks f 1)"
    by (simp_all add: started_fields)
  ultimately have first: "\<exists>f. drain [Slides, Camera] (stopRecording started) = Some f
         \<and> recorderCamera f = None \<and> recorderSlides f = None
         \<and> streamCamera f = None \<and> streamSlides f = None
         \<and> ended (tracks f 1) \<and> ended (tracks f 2) \<and> ended (tracks f 4)"
    using f(1-4) by blast
  from stopRecording_releases [OF started_preview_run, of "[Camera, Slides]"]
    started_preview_fields(3)
  obtain g where g: "drain [Camera, Slides] (stopRecording started_preview) = Some g"
    "recorderCamera g = None" "recorderSlides g = None"
    "showAvatar started_preview \<longrightarrow>
        streamCamera g = streamCamera started_preview
      \<and> (\<forall>sl t. streamSlides started_preview = Some sl
              \<and> t \<notin> set (getTracks sl started_preview) \<longrightarrow>
            tracks g t = tracks started_preview t)"
    by auto
  from g(4) have "streamCamera g = Some 0" "tracks g 1 = tracks started_preview 1"
    by (simp_all add: started_preview_fields)
  with g(1-3) have second: "\<exists>f. drain [Camera, Slides] (stopRecording started_preview) = Some f
         \<and> recorderCamera f = None \<and> recorderSlides f = None
         \<and> streamCamera f = Some 0 \<and> tracks f 1 = tracks started_preview 1"
    by blast
  from stopRecording_releases [OF started_muted_run, of "[Slides]"] started_muted_fields(1)
  obtain h where h: "drain [Slides] (stopRecording started_muted) = Some h"
    "recorderCamera h = None" "recorderSlides h = None" "streamSlides h = None"
    "\<forall>sl t. streamSlides started_muted = Some sl \<and> t \<in> set (getTracks sl started_muted) \<longrightarrow>
        ended (tracks h t)"
    by auto
  from h(5) have "ended (tracks h 1)" "ended (tracks h 3)"
    by (simp_all add: started_muted_fields)
  with h(1-4) have third: "\<exists>f. drain [Slides] (stopRecording started_muted) = Some f
         \<and> recorderCamera f = None \<and> recorderSlides f = None \<and> streamSlides f = None
         \<and> ended (tracks f 1) \<and> ended (tracks f 3)"
    by blast
  have "\<not> recording (stopRecording started)"
    using stopRecording_releases [OF started_run, of "[Slides, Camera]"] by blast
  with first second third show ?thesis
    using rc started_run started_preview_run started_muted_run
    by (simp add: started_fields(2,8,9) started_preview_fields(2) started_muted_fields(1))
qed

theorem recorder_invariant_witness:
  "reachable started \<and> recorder_has_stream Camera started \<and> recording started
   \<and> recorder_has_stream Slides started
   \<and> recorder_has_stream Camera (stopRecording started)
   \<and> recorder_has_stream Camera (snd (toggleAvatar granting started))
   \<and> recorder_has_stream Camera (snd (watchCurrentCamera granting ''cam2'' started))
   \<and> (\<exists>s'. engineStopped Camera (stopRecording started) = Some s'
          \<and> recorder_has_stream Camera s')"
proof -
  have r: "reachable started"
    unfolding started_def by (intro r_start r_initial)
  have c: "recorder_has_stream Camera started" and rec: "recording started"
    by (simp_all add: started_fields)
  have ne: "''cam2'' \<noteq> ''none''"
    by simp
  note at_started = recorder_invariant [of started granting Camera "''cam2''"]
  from at_started c have c2: "recorder_has_stream Camera (stopRecording started)"
    by blast
  have "Camera \<in> set (stopping (stopRecording started))"
    by (simp add: stopRecording_fields(9) started_fields)
  then obtain s' where s': "engineStopped Camera (stopRecording started) = Some s'"
    by (simp add: engineStopped_def)
  with recorder_invariant [of "stopRecording started" granting Camera "''cam2''"] c2
  have "recorder_has_stream Camera s'"
    by blast
  with s' have "\<exists>s'. engineStopped Camera (stopRecording started) = Some s'
          \<and> recorder_has_stream Camera s'"
    by blast
  with at_started r c rec ne show ?thesis by blast
qed

theorem startCameraStream_idempotent_witness:
  "fst (startCameraStream granting (initial ''cam1'' ''mic1'')) = Inr ()
   \<and> streamCamera (snd (startCameraStream granting (initial ''cam1'' ''mic1''))) = Some 0
   \<and> streamCamera (snd (startCameraStream granting
         (snd (startCameraStream granting (initial ''cam1'' ''mic1''))))) = Some 0
   \<and> streamCamera previewing = Some 0
   \<and> fst (startCameraStream granting previewing) = Inr ()
   \<and> streamCamera (snd (startCameraStream granting previewing)) = Some 0"
proof -
  have first: "fst (startCameraStream granting (initial ''cam1'' ''mic1'')) = Inr ()
      \<and> streamCamera (snd (startCameraStream granting (initial ''cam1'' ''mic1''))) = Some 0"
    by (simp add: startCameraStream_def initial_def granting_def emit_def newStream_def
        requested_def Let_def)
  have pv: "streamCamera previewing = Some 0"
    by (rule previewing_fields(1))
  from startCameraStream_idempotent [of previewing granting granting] pv
  have "fst (startCameraStream granting previewing) = Inr ()
      \<and> streamCamera (snd (startCameraStream granting previewing)) = Some 0"
    by (simp add: emit_def)
  with first pv startCameraStream_idempotent [of "initial ''cam1'' ''mic1''" granting granting]
  show ?thesis by (simp add: emit_def)
qed

theorem watchCurrentCamera_reaction_witness:
  "streamCamera switched = Some 0 \<and> 1 \<in> set (getTracks 0 switched)
   \<and> \<not> recording switched \<and> currentCamera switched = ''cam2''
   \<and> ended (tracks (snd (watchCurrentCamera granting ''none'' switched)) 1)
   \<and> streamCamera (snd (watchCurrentCamera granting ''none'' switched)) = None
   \<and> trace (snd (watchCurrentCamera granting ''cam2'' switched))
       = [EnsurePermissions, GetUserMedia (Some ''cam1'') (Some ''mic1''),
          EnsurePermissions, GetUserMedia (Some ''cam2'') (Some ''mic1'')]
   \<and> streamCamera (snd (watchCurrentCamera granting ''cam2'' switched)) = Some 3
   \<and> recording started
   \<and> watchCurrentCamera granting ''cam2'' started = (Inr (), started)
   \<and> streamCamera (initial ''cam1'' ''mic1'') = None
   \<and> watchCurrentCamera granting ''cam2'' (initial ''cam1'' ''mic1'')
       = (Inr (), initial ''cam1'' ''mic1'')"
proof -
  have h1: "streamCamera switched = Some 0 \<and> 1 \<in> set (getTracks 0 switched)"
    and h2: "''cam2'' \<noteq> ''none'' \<and> \<not> recording switched \<and> streamCamera switched = Some 0
             \<and> currentCamera switched = ''cam2''"
    by (simp_all add: switched_fields)
  from watchCurrentCamera_reaction [of granting switched 0 1 "''cam2''"] h1 h2
  have "ended (tracks (snd (watchCurrentCamera granting ''none'' switched)) 1)
      \<and> streamCamera (snd (watchCurrentCamera granting ''none'' switched)) = None
      \<and> trace (snd (watchCurrentCamera granting ''cam2'' switched)) =
           trace switched @ [EnsurePermissions,
             GetUserMedia (if recordCamera switched then Some ''cam2'' else None)
               (if currentMic switched = ''none'' then None else Some (currentMic switched))]
      \<and> (if getUserMedia granting (if recordCamera switched then Some ''cam2'' else None)
               (if currentMic switched = ''none'' then None else Some (currentMic switched))
          then fst (watchCurrentCamera granting ''cam2'' switched) = Inr ()
             \<and> streamCamera (snd (watchCurrentCamera granting ''cam2'' switched))
                 = Some (fresh switched)
          else fst (watchCurrentCamera granting ''cam2'' switched) = Inl UserMediaDenied
             \<and> streamCamera (snd (watchCurrentCamera granting ''cam2'' switched)) = None)"
    by blast
  moreover have h3: "''cam2'' \<noteq> ''none'' \<and> recording started"
    by (simp add: started_fields)
  with watchCurrentCamera_reaction [of granting started 0 1 "''cam2''"]
  have "watchCurrentCamera granting ''cam2'' started = (Inr (), started)"
    by blast
  moreover have h4: "''cam2'' \<noteq> ''none'' \<and> \<not> recording (initial ''cam1'' ''mic1'')
      \<and> streamCamera (initial ''cam1'' ''mic1'') = None"
    by (simp add: initial_def)
  with watchCurrentCamera_reaction [of granting "initial ''cam1'' ''mic1''" 0 1 "''cam2''"]
  have "watchCurrentCamera granting ''cam2'' (initial ''cam1'' ''mic1'')
       = (Inr (), initial ''cam1'' ''mic1'')"
    by blast
  ultimately show ?thesis
    using h1 h2 h3 h4
    by (simp add: switched_fields granting_userMedia)
qed

end
